theory Spec2Isabelle
  imports Main "HOL-Library.Sublist" "HOL-Library.Multiset"
begin

section \<open>The HubSpot wrapper of the agent runner (class \<open>HubSpotApi\<close>)\<close>

text \<open>
  The class \<open>HubSpotApi\<close> wraps the vendor client \<open>this.client\<close> and keeps one field of
  its own, \<open>ownerCache\<close>.  Every method is \<open>async\<close>: it either resolves with a value or
  rejects with an error, so a method is a function from the state before the call to a
  result \<open>error + 'a\<close> (\<open>Inl\<close> the rejection) and the state after it.

  Strings are byte strings (\<open>string\<close>).  The string functions of the JavaScript runtime
  (\<open>trim\<close>, \<open>toLowerCase\<close>, \<open>parseInt\<close>) are modelled on ASCII: white space is
  TAB, LF, VT, FF, CR and SPACE, and only the letters A to Z have a lower-case form.
  \<open>String.prototype.toLowerCase\<close> itself follows the Unicode case mappings, so where a
  result depends on which letters are lower-cased (\<open>findOwnersByName\<close>) the function of
  the runtime is a parameter, and \<open>toLowerCase\<close> below is its ASCII instance.
\<close>

subsection \<open>Strings of the runtime\<close>

definition isWhiteSpace :: "char \<Rightarrow> bool" where
  "isWhiteSpace c = (c \<in> set [CHR 0x09, CHR 0x0A, CHR 0x0B, CHR 0x0C, CHR 0x0D, CHR '' ''])"

definition trim :: "string \<Rightarrow> string" where
  "trim s = rev (dropWhile isWhiteSpace (rev (dropWhile isWhiteSpace s)))"

definition lower_char :: "char \<Rightarrow> char" where
  "lower_char c =
     (let n = (of_char c :: nat) in if 65 \<le> n \<and> n \<le> 90 then char_of (n + 32) else c)"

definition toLowerCase :: "string \<Rightarrow> string" where
  "toLowerCase s = map lower_char s"

text \<open>
  \<open>s.includes(t)\<close>: the search string \<open>t\<close> is looked for at every position of \<open>s\<close>
  (\<open>includes\<close> is a keyword of Isabelle, hence the prefix).
\<close>

fun str_includes :: "string \<Rightarrow> string \<Rightarrow> bool" where
  "str_includes [] t = (t = [])"
| "str_includes (c # cs) t = (prefix t (c # cs) \<or> str_includes cs t)"

text \<open>\<open>a || ''\<close> on a value that is a string, \<open>null\<close> or \<open>undefined\<close>.\<close>

definition or_empty :: "string option \<Rightarrow> string" where
  "or_empty a = (case a of None \<Rightarrow> [] | Some v \<Rightarrow> v)"

subsection \<open>Errors, owners and the owner directory\<close>

datatype error = ApiError string | RangeError | TypeError

text \<open>An owner as the vendor returns it (\<open>email\<close>, \<open>firstName\<close>, \<open>lastName\<close> may be missing).\<close>

record PublicOwner =
  po_id :: string
  po_email :: "string option"
  po_firstName :: "string option"
  po_lastName :: "string option"

record Owner =
  owner_id :: string
  owner_email :: string
  owner_firstName :: string
  owner_lastName :: string
  owner_fullName :: string

text \<open>The projection \<open>{ id, email, fullName }\<close> that \<open>findOwnersByName\<close> returns.\<close>

record OwnerRef =
  ref_id :: string
  ref_email :: string
  ref_fullName :: string

subsection \<open>The vendor client and the state\<close>

text \<open>A search clause, as \<open>listTickets\<close> pushes it onto \<open>filterGroups\<close>.\<close>

record Filter =
  propertyName :: string
  operator :: string
  values_opt :: "string list option"
  value_opt :: "string option"

record FilterGroup =
  filters :: "Filter list"

text \<open>The request object of \<open>searchApi.doSearch\<close>.\<close>

record SearchRequest =
  sr_filterGroups :: "FilterGroup list"
  sr_properties :: "string list"
  sr_limit :: nat
  sr_sorts :: "string list"
  sr_after :: string

text \<open>
  The positional arguments of \<open>basicApi.getPage(limit, after, properties,
  propertiesWithHistory, associations, archived)\<close> and of \<open>basicApi.getById(id, properties,
  propertiesWithHistory, associations, archived)\<close>; \<open>None\<close> is \<open>undefined\<close>.
\<close>

record GetPageArgs =
  gp_limit :: "nat option"
  gp_after :: "string option"
  gp_properties :: "string list option"
  gp_propertiesWithHistory :: "string list option"
  gp_associations :: "string list option"
  gp_archived :: "bool option"

record GetByIdArgs =
  gb_id :: string
  gb_properties :: "string list option"
  gb_propertiesWithHistory :: "string list option"
  gb_associations :: "string list option"
  gb_archived :: "bool option"

text \<open>The input of \<open>notes.basicApi.create\<close>: the two properties and the association.\<close>

record NoteAssociation =
  na_to :: string
  na_category :: string
  na_typeId :: nat

record NoteInput =
  hs_timestamp :: string
  hs_note_body :: string
  note_associations :: "NoteAssociation list"

text \<open>
  A record of the vendor (\<open>SimplePublicObjectWithAssociations\<close>): a property is a string,
  \<open>null\<close> (\<open>Some None\<close>) or missing (\<open>None\<close>).  The record-level \<open>createdAt\<close> is a
  \<open>Date\<close> (whose time value is \<open>None\<close> when the date is invalid) or, as
  \<open>getEmailContent\<close> allows for, a string.  An association kind maps to the identifiers
  of its \<open>results\<close>.
\<close>

datatype created_at = CreatedString string | CreatedDate "int option"

type_synonym properties = "string \<rightharpoonup> string option"

record SimplePublicObject =
  obj_id :: string
  obj_properties :: properties
  obj_createdAt :: "created_at option"
  obj_associations :: "(string \<rightharpoonup> string list) option"

text \<open>
  The calls the wrapper makes on \<open>this.client\<close>.  A client method takes the state of the
  outside world (type \<open>'w\<close>: the vendor's data, the network) and returns the new one with
  either the rejection or the \<open>results\<close> of the response.
\<close>

datatype call =
    OwnersGetPage "string option" "string option" "nat option"
  | TicketsDoSearch SearchRequest
  | TicketsGetPage GetPageArgs
  | TicketsGetById GetByIdArgs
  | EmailsGetById GetByIdArgs
  | NotesCreate NoteInput

record 'w Client =
  owners_getPage ::
    "string option \<Rightarrow> string option \<Rightarrow> nat option \<Rightarrow> 'w \<Rightarrow> (error + PublicOwner list) \<times> 'w"
  tickets_doSearch :: "SearchRequest \<Rightarrow> 'w \<Rightarrow> (error + SimplePublicObject list) \<times> 'w"
  tickets_getPage :: "GetPageArgs \<Rightarrow> 'w \<Rightarrow> (error + SimplePublicObject list) \<times> 'w"
  tickets_getById :: "GetByIdArgs \<Rightarrow> 'w \<Rightarrow> (error + SimplePublicObject) \<times> 'w"
  emails_getById :: "GetByIdArgs \<Rightarrow> 'w \<Rightarrow> (error + SimplePublicObject) \<times> 'w"
  notes_create :: "NoteInput \<Rightarrow> 'w \<Rightarrow> (error + SimplePublicObject) \<times> 'w"

text \<open>
  The state: the field \<open>ownerCache\<close> of the object, the outside world, and the calls made
  on the client so far, oldest first.
\<close>

record 'w state =
  ownerCache :: "Owner list option"
  world :: 'w
  calls :: "call list"

text \<open>\<open>await this.client. ... (args)\<close>: the call is recorded and the world moves on.\<close>

definition await_call ::
  "call \<Rightarrow> ('w \<Rightarrow> (error + 'a) \<times> 'w) \<Rightarrow> 'w state \<Rightarrow> (error + 'a) \<times> 'w state" where
  "await_call c m s =
     (case m (world s) of (r, w') \<Rightarrow> (r, s\<lparr>world := w', calls := calls s @ [c]\<rparr>))"

subsection \<open>\<open>listOwners\<close> and \<open>findOwnersByName\<close>\<close>

definition toOwner :: "PublicOwner \<Rightarrow> Owner" where
  "toOwner owner =
     (let first = or_empty (po_firstName owner);
          last = or_empty (po_lastName owner);
          full = trim (first @ '' '' @ last)
      in \<lparr>owner_id = po_id owner, owner_email = or_empty (po_email owner),
          owner_firstName = first, owner_lastName = last, owner_fullName = full\<rparr>)"

definition listOwners :: "'w Client \<Rightarrow> 'w state \<Rightarrow> (error + Owner list) \<times> 'w state" where
  "listOwners client s =
     (case ownerCache s of
        Some cached \<Rightarrow> (Inr cached, s)
      | None \<Rightarrow>
          (case await_call (OwnersGetPage None None None)
                  (owners_getPage client None None None) s of
             (Inr results, s') \<Rightarrow>
               (let owners = map toOwner results
                in (Inr owners, s'\<lparr>ownerCache := Some owners\<rparr>))
           | (Inl e, s') \<Rightarrow> (Inr [], s')))"

text \<open>
  \<open>findOwnersByName\<close>, with \<open>String.prototype.toLowerCase\<close> of the runtime as the
  parameter \<open>lc\<close>: it is applied to the search term once and to the four fields of
  every owner.
\<close>

definition ownerMatchesWith :: "(string \<Rightarrow> string) \<Rightarrow> string \<Rightarrow> Owner \<Rightarrow> bool" where
  "ownerMatchesWith lc lowerSearch owner =
     (str_includes (lc (owner_fullName owner)) lowerSearch \<or>
      str_includes (lc (owner_firstName owner)) lowerSearch \<or>
      str_includes (lc (owner_lastName owner)) lowerSearch \<or>
      str_includes (lc (owner_email owner)) lowerSearch)"

definition toOwnerRef :: "Owner \<Rightarrow> OwnerRef" where
  "toOwnerRef owner =
     \<lparr>ref_id = owner_id owner, ref_email = owner_email owner,
      ref_fullName = owner_fullName owner\<rparr>"

definition findOwnersByNameWith ::
  "(string \<Rightarrow> string) \<Rightarrow> 'w Client \<Rightarrow> string \<Rightarrow> 'w state
     \<Rightarrow> (error + OwnerRef list) \<times> 'w state" where
  "findOwnersByNameWith lc client searchName s =
     (case listOwners client s of
        (Inl e, s') \<Rightarrow> (Inl e, s')
      | (Inr owners, s') \<Rightarrow>
          (let lowerSearch = lc searchName
           in (Inr (map toOwnerRef (filter (ownerMatchesWith lc lowerSearch) owners)), s')))"

text \<open>The same with the ASCII lower-casing, as an engine does it on ASCII text.\<close>

definition findOwnersByName ::
  "'w Client \<Rightarrow> string \<Rightarrow> 'w state \<Rightarrow> (error + OwnerRef list) \<times> 'w state" where
  "findOwnersByName client searchName s = findOwnersByNameWith toLowerCase client searchName s"

subsection \<open>\<open>listTickets\<close>\<close>

record ListTicketsFilters =
  groups :: "string list option"
  statuses :: "string list option"
  priorities :: "string list option"
  owners :: "string list option"
  searchText :: "string option"

record HubSpotTicket =
  ticket_id :: string
  ticket_properties :: properties
  ticket_associations :: "(string \<rightharpoonup> string list) option"

definition TICKET_PROPERTIES :: "string list" where
  "TICKET_PROPERTIES =
     [''subject'', ''content'', ''group'', ''hs_ticket_priority'', ''hs_pipeline_stage'',
      ''createdate'', ''hubspot_owner_id'']"

text \<open>
  \<open>if (filters?.groups?.length) filterGroups.push({ propertyName, operator: 'IN', values })\<close>:
  the argument \<open>field\<close> is \<open>filters?.groups\<close>, which is \<open>undefined\<close> when \<open>filters\<close> is;
  the length is falsy when it is 0.
\<close>

definition pushIn :: "Filter list \<Rightarrow> string \<Rightarrow> string list option \<Rightarrow> Filter list" where
  "pushIn filterGroups name field =
     (case field of
        None \<Rightarrow> filterGroups
      | Some vs \<Rightarrow>
          if length vs \<noteq> 0
          then filterGroups @
                 [\<lparr>propertyName = name, operator = ''IN'', values_opt = Some vs, value_opt = None\<rparr>]
          else filterGroups)"

text \<open>\<open>if (filters?.searchText) filterGroups.push(...)\<close>: the empty string is falsy.\<close>

definition pushContainsToken :: "Filter list \<Rightarrow> string option \<Rightarrow> Filter list" where
  "pushContainsToken filterGroups field =
     (case field of
        None \<Rightarrow> filterGroups
      | Some v \<Rightarrow>
          if v \<noteq> []
          then filterGroups @
                 [\<lparr>propertyName = ''subject'', operator = ''CONTAINS_TOKEN'',
                   values_opt = None, value_opt = Some v\<rparr>]
          else filterGroups)"

text \<open>The first part of \<open>listTickets\<close>: the array \<open>filterGroups\<close> after the five tests.\<close>

definition ticketFilterGroups :: "ListTicketsFilters option \<Rightarrow> Filter list" where
  "ticketFilterGroups fs =
     (let filterGroups = [];
          filterGroups = pushIn filterGroups ''group'' (Option.bind fs groups);
          filterGroups = pushIn filterGroups ''hs_pipeline_stage'' (Option.bind fs statuses);
          filterGroups = pushIn filterGroups ''hs_ticket_priority'' (Option.bind fs priorities);
          filterGroups = pushIn filterGroups ''hubspot_owner_id'' (Option.bind fs owners);
          filterGroups = pushContainsToken filterGroups (Option.bind fs searchText)
      in filterGroups)"

definition searchRequest :: "Filter list \<Rightarrow> SearchRequest" where
  "searchRequest filterGroups =
     \<lparr>sr_filterGroups = [\<lparr>filters = filterGroups\<rparr>], sr_properties = TICKET_PROPERTIES,
      sr_limit = 100, sr_sorts = [], sr_after = ''0''\<rparr>"

definition pageArgs :: GetPageArgs where
  "pageArgs =
     \<lparr>gp_limit = Some 100, gp_after = None, gp_properties = Some TICKET_PROPERTIES,
      gp_propertiesWithHistory = None, gp_associations = None, gp_archived = Some False\<rparr>"

text \<open>\<open>results.map((ticket) => ({ id: ticket.id, properties: ticket.properties }))\<close>\<close>

definition toTicket :: "SimplePublicObject \<Rightarrow> HubSpotTicket" where
  "toTicket ticket =
     \<lparr>ticket_id = obj_id ticket, ticket_properties = obj_properties ticket,
      ticket_associations = None\<rparr>"

definition listTickets ::
  "'w Client \<Rightarrow> ListTicketsFilters option \<Rightarrow> 'w state \<Rightarrow> (error + HubSpotTicket list) \<times> 'w state"
  where
  "listTickets client fs s =
     (let filterGroups = ticketFilterGroups fs
      in case (if length filterGroups > 0
               then await_call (TicketsDoSearch (searchRequest filterGroups))
                      (tickets_doSearch client (searchRequest filterGroups)) s
               else await_call (TicketsGetPage pageArgs) (tickets_getPage client pageArgs) s) of
           (Inl e, s') \<Rightarrow> (Inl e, s')
         | (Inr results, s') \<Rightarrow> (Inr (map toTicket results), s'))"

subsection \<open>Numbers and dates of the runtime\<close>

text \<open>
  \<open>parseInt(string)\<close> with no radix: leading white space is skipped, one sign is read, the
  prefix \<open>0x\<close> or \<open>0X\<close> selects radix 16, and the longest run of digits is the value;
  \<open>None\<close> is \<open>NaN\<close>.  The value is the exact integer: a double holds every integer up to
  \<open>2^53\<close> exactly, and beyond it the value is outside the range of a \<open>Date\<close> anyway.
\<close>

definition digitValue :: "char \<Rightarrow> nat option" where
  "digitValue c =
     (let n = (of_char c :: nat)
      in if 48 \<le> n \<and> n \<le> 57 then Some (n - 48)
         else if 97 \<le> n \<and> n \<le> 122 then Some (n - 87)
         else if 65 \<le> n \<and> n \<le> 90 then Some (n - 55)
         else None)"

definition isRadixDigit :: "nat \<Rightarrow> char \<Rightarrow> bool" where
  "isRadixDigit R c = (case digitValue c of None \<Rightarrow> False | Some d \<Rightarrow> d < R)"

definition radixValue :: "nat \<Rightarrow> string \<Rightarrow> int" where
  "radixValue R z = foldl (\<lambda>a c. a * int R + int (case digitValue c of None \<Rightarrow> 0 | Some d \<Rightarrow> d)) 0 z"

definition parseInt :: "string \<Rightarrow> int option" where
  "parseInt inputString =
     (let S = dropWhile isWhiteSpace inputString;
          negative = (take 1 S = ''-'');
          S = (if take 1 S = ''+'' \<or> take 1 S = ''-'' then drop 1 S else S);
          hex = (take 2 S = ''0x'' \<or> take 2 S = ''0X'');
          R = (if hex then 16 else 10);
          S = (if hex then drop 2 S else S);
          Z = takeWhile (isRadixDigit R) S
      in if Z = [] then None
         else Some ((if negative then - 1 else 1) * radixValue R Z))"

text \<open>
  \<open>new Date(value)\<close> on a number: the time value is kept when
  \<open>|value| \<le> 8.64 * 10^15\<close> and is \<open>NaN\<close> (\<open>None\<close>) otherwise.
\<close>

definition newDate :: "int option \<Rightarrow> int option" where
  "newDate v =
     (case v of
        None \<Rightarrow> None
      | Some n \<Rightarrow> if \<bar>n\<bar> \<le> 8640000000000000 then Some n else None)"

text \<open>
  \<open>Date.prototype.toISOString\<close>, after the date algorithms of ECMAScript: \<open>DayFromYear\<close>,
  the year as the largest \<open>y\<close> whose first day is not after the day (found by stepping
  at most 400 years from the start of the 400-year cycle of 146097 days), the month and
  the day of the month from the day within the year.
\<close>

definition msPerDay :: int where
  "msPerDay = 86400000"

definition DayFromYear :: "int \<Rightarrow> int" where
  "DayFromYear y =
     365 * (y - 1970) + (y - 1969) div 4 - (y - 1901) div 100 + (y - 1601) div 400"

fun yearSearch :: "nat \<Rightarrow> int \<Rightarrow> int \<Rightarrow> int" where
  "yearSearch 0 d y = y"
| "yearSearch (Suc n) d y = (if DayFromYear (y + 1) \<le> d then yearSearch n d (y + 1) else y)"

definition YearFromDay :: "int \<Rightarrow> int" where
  "YearFromDay d = yearSearch 400 d (1970 + 400 * (d div 146097))"

definition monthStarts :: "int \<Rightarrow> int list" where
  "monthStarts leap =
     [0, 31, 59 + leap, 90 + leap, 120 + leap, 151 + leap, 181 + leap, 212 + leap,
      243 + leap, 273 + leap, 304 + leap, 334 + leap]"

fun decimal :: "nat \<Rightarrow> string" where
  "decimal n =
     (if n < 10 then [char_of (48 + n)] else decimal (n div 10) @ [char_of (48 + n mod 10)])"

declare decimal.simps [simp del]

definition padStart :: "nat \<Rightarrow> nat \<Rightarrow> string" where
  "padStart width n = replicate (width - length (decimal n)) CHR ''0'' @ decimal n"

definition toISOString :: "int \<Rightarrow> string" where
  "toISOString t =
     (let day = t div msPerDay;
          ms = t mod msPerDay;
          y = YearFromDay day;
          dayInYear = day - DayFromYear y;
          leap = (if DayFromYear (y + 1) - DayFromYear y = 366 then 1 else 0);
          m = length (filter (\<lambda>start. start \<le> dayInYear) (monthStarts leap)) - 1;
          date = dayInYear - monthStarts leap ! m + 1;
          year = (if 0 \<le> y \<and> y \<le> 9999 then padStart 4 (nat y)
                  else (if y < 0 then ''-'' else ''+'') @ padStart 6 (nat \<bar>y\<bar>))
      in year @ ''-'' @ padStart 2 (m + 1) @ ''-'' @ padStart 2 (nat date) @ ''T'' @
         padStart 2 (nat (ms div 3600000)) @ '':'' @
         padStart 2 (nat (ms div 60000 mod 60)) @ '':'' @
         padStart 2 (nat (ms div 1000 mod 60)) @ ''.'' @
         padStart 3 (nat (ms mod 1000)) @ ''Z'')"

text \<open>\<open>date.toISOString()\<close> throws a \<open>RangeError\<close> on an invalid date.\<close>

definition dateToISOString :: "int option \<Rightarrow> error + string" where
  "dateToISOString tv = (case tv of None \<Rightarrow> Inl RangeError | Some t \<Rightarrow> Inr (toISOString t))"

text \<open>\<open>number.toString()\<close> on an integer below \<open>10^21\<close>, as the clock reads.\<close>

definition numberToString :: "int \<Rightarrow> string" where
  "numberToString n = (if n < 0 then ''-'' @ decimal (nat (- n)) else decimal (nat n))"

subsection \<open>\<open>getEmailContent\<close>\<close>

text \<open>
  What the wrapper takes from outside the repository apart from the client: the function
  \<open>convert\<close> of the package html-to-text (with the options of the source; it may
  throw), \<open>new Date(string).getTime()\<close> (\<open>None\<close> is \<open>NaN\<close>; which strings parse is
  left to the engine by ECMAScript beyond its own date-time format), and the clock.
\<close>

record 'w Runtime =
  htmlToText :: "string \<Rightarrow> error + string"
  Date_parse :: "string \<Rightarrow> int option"
  Date_now :: "'w \<Rightarrow> int"

record TicketEmail =
  te_id :: string
  te_subject :: "string option"
  te_from :: "string option"
  te_to :: "string option"
  te_text :: "string option"
  te_createdAt :: "string option"

definition EMAIL_PROPERTIES :: "string list" where
  "EMAIL_PROPERTIES =
     [''hs_email_text'', ''hs_email_html'', ''hs_email_subject'', ''hs_email_from'',
      ''hs_email_to'', ''hs_timestamp'', ''hs_email_date'', ''hs_createdate'']"

text \<open>
  A property read in a test or before \<open>||\<close>: \<open>Some v\<close> when it is truthy (a string that
  is not empty), \<open>None\<close> when it is missing, \<open>null\<close> or empty.
\<close>

definition truthy :: "string option option \<Rightarrow> string option" where
  "truthy p = (case p of Some (Some v) \<Rightarrow> if v = [] then None else Some v | _ \<Rightarrow> None)"

definition newline :: char where
  "newline = CHR 0x0A"

text \<open>\<open>s.split('\n')\<close> and \<open>lines.join('\n')\<close>.\<close>

fun split_newline :: "string \<Rightarrow> string list" where
  "split_newline [] = [[]]"
| "split_newline (c # cs) =
     (if c = newline then [] # split_newline cs
      else (case split_newline cs of [] \<Rightarrow> [[c]] | l # ls \<Rightarrow> (c # l) # ls))"

fun join_newline :: "string list \<Rightarrow> string" where
  "join_newline [] = []"
| "join_newline [l] = l"
| "join_newline (l # ls) = l @ [newline] @ join_newline ls"

text \<open>
  \<open>s.replace(/\n{3,}/g, '\n\n')\<close>: \<open>n\<close> counts the line feeds of the run being read;
  a run of three or more is written as two.
\<close>

fun replace_newlines :: "nat \<Rightarrow> string \<Rightarrow> string" where
  "replace_newlines n [] = replicate (if 3 \<le> n then 2 else n) newline"
| "replace_newlines n (c # cs) =
     (if c = newline then replace_newlines (Suc n) cs
      else replicate (if 3 \<le> n then 2 else n) newline @ c # replace_newlines 0 cs)"

text \<open>The clean-up of the converted text: lines that are empty once \<open>>\<close> is removed go.\<close>

definition cleanUp :: "string \<Rightarrow> string" where
  "cleanUp converted =
     trim (replace_newlines 0 (join_newline
       (filter (\<lambda>line. length (trim (filter (\<lambda>c. c \<noteq> CHR ''>'') line)) > 0)
          (split_newline converted))))"

definition emailText :: "'w Runtime \<Rightarrow> properties \<Rightarrow> error + string" where
  "emailText rt props =
     (let rawContent =
            (case truthy (props ''hs_email_html'') of
               Some html \<Rightarrow> html
             | None \<Rightarrow> (case truthy (props ''hs_email_text'') of Some t \<Rightarrow> t | None \<Rightarrow> []));
          cleanText = rawContent
      in case truthy (props ''hs_email_html'') of
           Some html \<Rightarrow>
             (case htmlToText rt html of
                Inl e \<Rightarrow> Inl e
              | Inr converted \<Rightarrow> Inr (cleanUp converted))
         | None \<Rightarrow> Inr cleanText)"

text \<open>
  The chain of tests that sets \<open>createdAt\<close>.  A \<open>Date\<close> is truthy even when invalid; a
  string is truthy when it is not empty.
\<close>

definition emailCreatedAt :: "'w Runtime \<Rightarrow> 'w \<Rightarrow> SimplePublicObject \<Rightarrow> error + string" where
  "emailCreatedAt rt w email =
     (let props = obj_properties email
      in case truthy (props ''hs_email_date'') of
           Some v \<Rightarrow> dateToISOString (newDate (parseInt v))
         | None \<Rightarrow>
        (case truthy (props ''hs_timestamp'') of
           Some v \<Rightarrow> dateToISOString (newDate (parseInt v))
         | None \<Rightarrow>
        (case truthy (props ''hs_createdate'') of
           Some v \<Rightarrow> dateToISOString (newDate (Date_parse rt v))
         | None \<Rightarrow>
        (case obj_createdAt email of
           Some (CreatedDate tv) \<Rightarrow> dateToISOString tv
         | Some (CreatedString c) \<Rightarrow>
             if c \<noteq> [] then Inr c else Inr (toISOString (Date_now rt w))
         | None \<Rightarrow> Inr (toISOString (Date_now rt w))))))"

text \<open>The body of the \<open>try\<close> block after the fetch.\<close>

definition normalizeEmail :: "'w Runtime \<Rightarrow> 'w \<Rightarrow> SimplePublicObject \<Rightarrow> error + TicketEmail" where
  "normalizeEmail rt w email =
     (let props = obj_properties email
      in case emailText rt props of
           Inl e \<Rightarrow> Inl e
         | Inr cleanText \<Rightarrow>
             (case emailCreatedAt rt w email of
                Inl e \<Rightarrow> Inl e
              | Inr createdAt \<Rightarrow>
                  Inr \<lparr>te_id = obj_id email,
                       te_subject = truthy (props ''hs_email_subject''),
                       te_from = truthy (props ''hs_email_from''),
                       te_to = truthy (props ''hs_email_to''),
                       te_text = Some cleanText,
                       te_createdAt = Some createdAt\<rparr>))"

definition emailArgs :: "string \<Rightarrow> GetByIdArgs" where
  "emailArgs emailId =
     \<lparr>gb_id = emailId, gb_properties = Some EMAIL_PROPERTIES, gb_propertiesWithHistory = None,
      gb_associations = None, gb_archived = Some False\<rparr>"

text \<open>\<open>try { ... } catch { return null; }\<close>: \<open>None\<close> is \<open>null\<close>.\<close>

definition getEmailContent ::
  "'w Runtime \<Rightarrow> 'w Client \<Rightarrow> string \<Rightarrow> 'w state \<Rightarrow> TicketEmail option \<times> 'w state" where
  "getEmailContent rt client emailId s =
     (case await_call (EmailsGetById (emailArgs emailId))
             (emails_getById client (emailArgs emailId)) s of
        (Inl e, s') \<Rightarrow> (None, s')
      | (Inr email, s') \<Rightarrow>
          (case normalizeEmail rt (world s') email of
             Inl e \<Rightarrow> (None, s')
           | Inr result \<Rightarrow> (Some result, s')))"

subsection \<open>\<open>getTicketEmails\<close>\<close>

text \<open>
  \<open>array.sort(comparefn)\<close>.  The sort is stable, and a comparator result of \<open>NaN\<close>
  (\<open>None\<close>) is read as \<open>+0\<close>.  With a comparator that orders by a number per element
  the result is the one stable sorted arrangement, which this insertion sort produces.
  When the comparator returns \<open>NaN\<close> ECMAScript leaves the order to the engine; the
  model then still is this insertion sort.
\<close>

definition sortCompare :: "('a \<Rightarrow> 'a \<Rightarrow> int option) \<Rightarrow> 'a \<Rightarrow> 'a \<Rightarrow> int" where
  "sortCompare comparefn x y = (case comparefn x y of None \<Rightarrow> 0 | Some v \<Rightarrow> v)"

fun sortInsert :: "('a \<Rightarrow> 'a \<Rightarrow> int option) \<Rightarrow> 'a \<Rightarrow> 'a list \<Rightarrow> 'a list" where
  "sortInsert comparefn x [] = [x]"
| "sortInsert comparefn x (y # ys) =
     (if sortCompare comparefn x y > 0 then y # sortInsert comparefn x ys else x # y # ys)"

definition arraySort :: "('a \<Rightarrow> 'a \<Rightarrow> int option) \<Rightarrow> 'a list \<Rightarrow> 'a list" where
  "arraySort comparefn xs = foldr (sortInsert comparefn) xs []"

text \<open>\<open>a.createdAt ? new Date(a.createdAt).getTime() : 0\<close>; \<open>None\<close> is \<open>NaN\<close>.\<close>

definition emailDate :: "'w Runtime \<Rightarrow> TicketEmail \<Rightarrow> int option" where
  "emailDate rt a =
     (case te_createdAt a of
        None \<Rightarrow> Some 0
      | Some c \<Rightarrow> if c = [] then Some 0 else newDate (Date_parse rt c))"

text \<open>\<open>dateA - dateB\<close>, which is \<open>NaN\<close> when either is.\<close>

definition compareEmails :: "'w Runtime \<Rightarrow> TicketEmail \<Rightarrow> TicketEmail \<Rightarrow> int option" where
  "compareEmails rt a b =
     (case (emailDate rt a, emailDate rt b) of
        (Some dateA, Some dateB) \<Rightarrow> Some (dateA - dateB)
      | _ \<Rightarrow> None)"

text \<open>The \<open>for\<close> loop over \<open>emailIds\<close>, with the array \<open>emails\<close> built so far.\<close>

fun fetchEmails ::
  "'w Runtime \<Rightarrow> 'w Client \<Rightarrow> string list \<Rightarrow> TicketEmail list \<Rightarrow> 'w state
     \<Rightarrow> TicketEmail list \<times> 'w state" where
  "fetchEmails rt client [] emails s = (emails, s)"
| "fetchEmails rt client (emailId # rest) emails s =
     (case getEmailContent rt client emailId s of
        (Some email, s') \<Rightarrow> fetchEmails rt client rest (emails @ [email]) s'
      | (None, s') \<Rightarrow> fetchEmails rt client rest emails s')"

definition ticketEmailsArgs :: "string \<Rightarrow> GetByIdArgs" where
  "ticketEmailsArgs ticketId =
     \<lparr>gb_id = ticketId, gb_properties = Some [''subject''], gb_propertiesWithHistory = None,
      gb_associations = Some [''emails''], gb_archived = Some False\<rparr>"

text \<open>\<open>ticket.associations?.emails?.results?.map((e) => e.id) || []\<close>\<close>

definition linkedEmailIds :: "SimplePublicObject \<Rightarrow> string list" where
  "linkedEmailIds ticket =
     (case obj_associations ticket of
        None \<Rightarrow> []
      | Some assoc \<Rightarrow> (case assoc ''emails'' of None \<Rightarrow> [] | Some ids \<Rightarrow> ids))"

definition getTicketEmails ::
  "'w Runtime \<Rightarrow> 'w Client \<Rightarrow> string \<Rightarrow> 'w state \<Rightarrow> (error + TicketEmail list) \<times> 'w state"
  where
  "getTicketEmails rt client ticketId s =
     (case await_call (TicketsGetById (ticketEmailsArgs ticketId))
             (tickets_getById client (ticketEmailsArgs ticketId)) s of
        (Inl e, s') \<Rightarrow> (Inl e, s')
      | (Inr ticket, s') \<Rightarrow>
          (let emailIds = linkedEmailIds ticket
           in if length emailIds = 0 then (Inr [], s')
              else (case fetchEmails rt client emailIds [] s' of
                      (emails, s'') \<Rightarrow> (Inr (arraySort (compareEmails rt) emails), s''))))"

subsection \<open>\<open>addNoteToTicket\<close>\<close>

definition noteInput :: "'w Runtime \<Rightarrow> 'w \<Rightarrow> string \<Rightarrow> string \<Rightarrow> NoteInput" where
  "noteInput rt w ticketId noteBody =
     \<lparr>hs_timestamp = numberToString (Date_now rt w), hs_note_body = noteBody,
      note_associations =
        [\<lparr>na_to = ticketId, na_category = ''HUBSPOT_DEFINED'', na_typeId = 16\<rparr>]\<rparr>"

definition addNoteToTicket ::
  "'w Runtime \<Rightarrow> 'w Client \<Rightarrow> string \<Rightarrow> string \<Rightarrow> 'w state \<Rightarrow> (error + bool) \<times> 'w state" where
  "addNoteToTicket rt client ticketId noteBody s =
     (case await_call (NotesCreate (noteInput rt (world s) ticketId noteBody))
             (notes_create client (noteInput rt (world s) ticketId noteBody)) s of
        (Inr created, s') \<Rightarrow> (Inr True, s')
      | (Inl e, s') \<Rightarrow> (Inr False, s'))"

subsection \<open>Repeated calls of \<open>listOwners\<close>\<close>

text \<open>
  A caller that calls \<open>listOwners\<close> once per element of \<open>changes\<close>; before each call
  the outside world changes as the element says (the upstream directory is edited, the
  network goes up or down).  The results are returned oldest first.
\<close>

fun listOwnersRepeatedly ::
  "'w Client \<Rightarrow> ('w \<Rightarrow> 'w) list \<Rightarrow> 'w state \<Rightarrow> (error + Owner list) list \<times> 'w state" where
  "listOwnersRepeatedly client [] s = ([], s)"
| "listOwnersRepeatedly client (change # changes) s =
     (case listOwners client (s\<lparr>world := change (world s)\<rparr>) of
        (r, s') \<Rightarrow>
          (case listOwnersRepeatedly client changes s' of (rs, s'') \<Rightarrow> (r # rs, s'')))"

subsection \<open>A sample vendor\<close>

text \<open>
  A concrete outside world for the examples: the world is the number of calls answered
  so far, and the clock reads \<open>1700000000000 + world\<close> milliseconds.  The directory is
  down for the first call and has gained an owner from the fourth call on.  Ticket
  \<open>''1''\<close> has three linked messages, of which \<open>''e2''\<close> cannot be fetched; ticket
  \<open>''2''\<close> has none; ticket \<open>''3''\<close> has two.
\<close>

definition owner_ryan :: PublicOwner where
  "owner_ryan =
     \<lparr>po_id = ''10'', po_email = Some ''ryan@x.com'', po_firstName = Some ''Ryan'',
      po_lastName = Some ''Jones''\<rparr>"

definition owner_kim :: PublicOwner where
  "owner_kim =
     \<lparr>po_id = ''11'', po_email = Some ''RYAN@x.com'', po_firstName = Some ''Kim'',
      po_lastName = None\<rparr>"

definition owner_bryant :: PublicOwner where
  "owner_bryant =
     \<lparr>po_id = ''12'', po_email = Some ''b@x.com'', po_firstName = Some ''Bryant'',
      po_lastName = Some ''Lee''\<rparr>"

definition owner_ann :: PublicOwner where
  "owner_ann =
     \<lparr>po_id = ''13'', po_email = None, po_firstName = Some ''Ann'', po_lastName = Some ''Wu''\<rparr>"

definition sample_ticket :: "string \<Rightarrow> string list option \<Rightarrow> SimplePublicObject" where
  "sample_ticket i linked =
     \<lparr>obj_id = i, obj_properties = [''subject'' \<mapsto> Some ''Sync fails''],
      obj_createdAt = Some (CreatedDate (Some 1600000000000)),
      obj_associations = (case linked of None \<Rightarrow> None | Some ids \<Rightarrow> Some [''emails'' \<mapsto> ids])\<rparr>"

definition sample_email ::
  "string \<Rightarrow> (string \<times> string) list \<Rightarrow> created_at option \<Rightarrow> SimplePublicObject" where
  "sample_email i props created =
     \<lparr>obj_id = i, obj_properties = map_of (map (\<lambda>(k, v). (k, Some v)) props),
      obj_createdAt = created, obj_associations = None\<rparr>"

text \<open>
  The sample messages: \<open>e1\<close> and \<open>e3\<close> carry epoch milliseconds, \<open>e4\<close> an email date
  that is no number next to a good generic timestamp, \<open>e5\<close> and \<open>e6\<close> only the
  record-level timestamp (a \<open>Date\<close>, and a string that is no date), \<open>e7\<close> a creation
  date string, \<open>e8\<close> nothing at all.
\<close>

definition email_e1 :: SimplePublicObject where
  "email_e1 =
     sample_email ''e1''
       [(''hs_email_date'', ''1700000000000''), (''hs_email_text'', ''  later  '')]
       (Some (CreatedDate (Some 1600000000000)))"

definition email_e3 :: SimplePublicObject where
  "email_e3 =
     sample_email ''e3''
       [(''hs_timestamp'', ''1600000000000''), (''hs_email_html'', ''<p>first</p>''),
        (''hs_email_text'', ''fallback'')]
       (Some (CreatedDate (Some 1600000000000)))"

definition email_e4 :: SimplePublicObject where
  "email_e4 =
     sample_email ''e4''
       [(''hs_email_date'', ''soon''), (''hs_timestamp'', ''1600000000000'')]
       (Some (CreatedDate (Some 1600000000000)))"

definition email_e5 :: SimplePublicObject where
  "email_e5 = sample_email ''e5'' [] (Some (CreatedDate (Some 5000)))"

definition email_e6 :: SimplePublicObject where
  "email_e6 = sample_email ''e6'' [] (Some (CreatedString ''not a date''))"

definition email_e7 :: SimplePublicObject where
  "email_e7 = sample_email ''e7'' [(''hs_createdate'', ''2024-02-29T12:00:00.000Z'')] None"

definition email_e8 :: SimplePublicObject where
  "email_e8 = sample_email ''e8'' [] None"

definition sample_emails :: "string \<rightharpoonup> SimplePublicObject" where
  "sample_emails =
     [''e1'' \<mapsto> email_e1, ''e3'' \<mapsto> email_e3, ''e4'' \<mapsto> email_e4, ''e5'' \<mapsto> email_e5,
      ''e6'' \<mapsto> email_e6, ''e7'' \<mapsto> email_e7, ''e8'' \<mapsto> email_e8]"

definition sample_client :: "nat Client" where
  "sample_client =
     \<lparr>owners_getPage = (\<lambda>email after limit w.
        (if w = 0 then Inl (ApiError ''503'')
         else if w < 3 then Inr [owner_ryan, owner_kim, owner_bryant]
         else Inr [owner_ryan, owner_kim, owner_bryant, owner_ann], Suc w)),
      tickets_doSearch = (\<lambda>request w. (Inr [sample_ticket ''1'' (Some [''e1''])], Suc w)),
      tickets_getPage = (\<lambda>args w.
        (Inr [sample_ticket ''1'' (Some [''e1'']), sample_ticket ''2'' None], Suc w)),
      tickets_getById = (\<lambda>args w.
        (if gb_id args = ''1'' then Inr (sample_ticket ''1'' (Some [''e1'', ''e2'', ''e3'']))
         else if gb_id args = ''2'' then Inr (sample_ticket ''2'' (Some []))
         else if gb_id args = ''3'' then Inr (sample_ticket ''3'' (Some [''e5'', ''e6'']))
         else Inl (ApiError ''404''), Suc w)),
      emails_getById = (\<lambda>args w.
        (case sample_emails (gb_id args) of
           Some email \<Rightarrow> Inr email
         | None \<Rightarrow> Inl (ApiError ''404''), Suc w)),
      notes_create = (\<lambda>input w.
        (if hs_note_body input = [] then Inl (ApiError ''400'')
         else Inr (sample_ticket ''900'' None), Suc w))\<rparr>"

text \<open>
  For \<open>new Date(string)\<close>, the sample engine reads the format that \<open>toISOString\<close>
  writes with a four-digit year, \<open>YYYY-MM-DDTHH:mm:ss.sssZ\<close>, and nothing else.
\<close>

definition decimalField :: "string \<Rightarrow> nat option" where
  "decimalField z =
     (if z \<noteq> [] \<and> list_all (isRadixDigit 10) z then Some (nat (radixValue 10 z)) else None)"

definition parseIsoUtc :: "string \<Rightarrow> int option" where
  "parseIsoUtc s =
     (if length s = 24 \<and> map (\<lambda>i. s ! i) [4, 7, 10, 13, 16, 19, 23] = ''--T::.Z''
      then (case map (\<lambda>(i, n). decimalField (take n (drop i s)))
                   [(0, 4), (5, 2), (8, 2), (11, 2), (14, 2), (17, 2), (20, 3)] of
              [Some y, Some mo, Some d, Some h, Some mi, Some sec, Some ms] \<Rightarrow>
                (let leap = (if DayFromYear (int y + 1) - DayFromYear (int y) = 366 then 1 else 0);
                     starts = monthStarts leap @ [365 + leap]
                 in if 1 \<le> mo \<and> mo \<le> 12 \<and> 1 \<le> d \<and> h < 24 \<and> mi < 60 \<and> sec < 60 \<and>
                       starts ! (mo - 1) + int d \<le> starts ! mo
                    then Some ((DayFromYear (int y) + starts ! (mo - 1) + int d - 1) * msPerDay
                               + int h * 3600000 + int mi * 60000 + int sec * 1000 + int ms)
                    else None)
            | _ \<Rightarrow> None)
      else None)"

definition sample_runtime :: "nat Runtime" where
  "sample_runtime =
     \<lparr>htmlToText = (\<lambda>html.
        if html = ''<p>first</p>'' then Inr (''first'' @ [newline] @ ''> '' @ [newline])
        else Inl TypeError),
      Date_parse = parseIsoUtc,
      Date_now = (\<lambda>w. 1700000000000 + int w)\<rparr>"

definition state0 :: "nat state" where
  "state0 = \<lparr>ownerCache = None, world = 0, calls = []\<rparr>"

subsection \<open>The clauses of \<open>listTickets\<close>, as the specification words them\<close>

text \<open>
  One \<open>IN\<close> clause on the property for an array that is present and not empty, and no
  clause otherwise.
\<close>

definition inClause :: "string \<Rightarrow> string list option \<Rightarrow> Filter list" where
  "inClause name field =
     (case field of
        Some (v # vs) \<Rightarrow>
          [\<lparr>propertyName = name, operator = ''IN'', values_opt = Some (v # vs), value_opt = None\<rparr>]
      | _ \<Rightarrow> [])"

text \<open>One \<open>CONTAINS_TOKEN\<close> clause on \<open>subject\<close> for a free text that is present and not empty.\<close>

definition tokenClause :: "string option \<Rightarrow> Filter list" where
  "tokenClause field =
     (case field of
        Some (c # cs) \<Rightarrow>
          [\<lparr>propertyName = ''subject'', operator = ''CONTAINS_TOKEN'', values_opt = None,
            value_opt = Some (c # cs)\<rparr>]
      | _ \<Rightarrow> [])"

text \<open>Sample criteria: two arrays and a free text supplied; and nothing supplied.\<close>

definition sample_filters :: ListTicketsFilters where
  "sample_filters =
     \<lparr>groups = Some [''Mobile'', ''Front-end''], statuses = Some [], priorities = None,
      owners = Some [''10''], searchText = Some ''Syncing''\<rparr>"

definition empty_filters :: ListTicketsFilters where
  "empty_filters =
     \<lparr>groups = Some [], statuses = None, priorities = Some [], owners = None,
      searchText = Some ''''\<rparr>"

subsection \<open>The match of \<open>findOwnersByName\<close>, as the specification words it\<close>

text \<open>
  Case-insensitive substring: the lower-cased search term occurs somewhere in the
  lower-cased field, \<open>lc\<close> being the lower-casing of the runtime.
\<close>

definition occursIn :: "(string \<Rightarrow> string) \<Rightarrow> string \<Rightarrow> string \<Rightarrow> bool" where
  "occursIn lc searchName field =
     (\<exists>before after. lc field = before @ lc searchName @ after)"

text \<open>The owners of the sample directory at its second call, and a state that caches them.\<close>

definition sample_owners :: "Owner list" where
  "sample_owners = map toOwner [owner_ryan, owner_kim, owner_bryant]"

definition state_cached :: "nat state" where
  "state_cached =
     \<lparr>ownerCache = Some sample_owners, world = 2,
      calls = [OwnersGetPage None None None, OwnersGetPage None None None]\<rparr>"

subsection \<open>The outcome of each message fetch\<close>

text \<open>
  What \<open>getEmailContent\<close> returns for each linked identifier in turn, the state threaded
  through: \<open>None\<close> for a message whose fetch or normalisation threw.  The messages that
  succeeded are the outcomes that are not \<open>None\<close>, in the order of the identifiers.
\<close>

fun fetchOutcomes ::
  "'w Runtime \<Rightarrow> 'w Client \<Rightarrow> string list \<Rightarrow> 'w state \<Rightarrow> TicketEmail option list \<times> 'w state" where
  "fetchOutcomes rt client [] s = ([], s)"
| "fetchOutcomes rt client (emailId # rest) s =
     (case getEmailContent rt client emailId s of
        (outcome, s') \<Rightarrow>
          (case fetchOutcomes rt client rest s' of
             (outcomes, s'') \<Rightarrow> (outcome # outcomes, s'')))"

fun succeeded :: "TicketEmail option list \<Rightarrow> TicketEmail list" where
  "succeeded [] = []"
| "succeeded (None # outcomes) = succeeded outcomes"
| "succeeded (Some message # outcomes) = message # succeeded outcomes"

text \<open>
  The time a message is ordered by when a timestamp that does not resolve counts as
  epoch zero.
\<close>

definition orderingTime :: "'w Runtime \<Rightarrow> TicketEmail \<Rightarrow> int" where
  "orderingTime rt message = (case emailDate rt message of None \<Rightarrow> 0 | Some t \<Rightarrow> t)"


text \<open>The messages that the sample vendor's records normalise to.\<close>

definition message_e1 :: TicketEmail where
  "message_e1 =
     \<lparr>te_id = ''e1'', te_subject = None, te_from = None, te_to = None,
      te_text = Some ''  later  '', te_createdAt = Some ''2023-11-14T22:13:20.000Z''\<rparr>"

definition message_e3 :: TicketEmail where
  "message_e3 =
     \<lparr>te_id = ''e3'', te_subject = None, te_from = None, te_to = None,
      te_text = Some ''first'', te_createdAt = Some ''2020-09-13T12:26:40.000Z''\<rparr>"

definition message_e5 :: TicketEmail where
  "message_e5 =
     \<lparr>te_id = ''e5'', te_subject = None, te_from = None, te_to = None,
      te_text = Some [], te_createdAt = Some ''1970-01-01T00:00:05.000Z''\<rparr>"

definition message_e6 :: TicketEmail where
  "message_e6 =
     \<lparr>te_id = ''e6'', te_subject = None, te_from = None, te_to = None,
      te_text = Some [], te_createdAt = Some ''not a date''\<rparr>"



section \<open>Properties\<close>

subsection \<open>Substrings\<close>

text \<open>\<open>str_includes s t\<close> holds exactly when \<open>t\<close> occurs in \<open>s\<close> as a contiguous piece.\<close>

lemma str_includes_iff: "str_includes s t \<longleftrightarrow> (\<exists>before after. s = before @ t @ after)"
proof (induction s)
  case Nil
  then show ?case by auto
next
  case (Cons c cs)
  have "(\<exists>before after. c # cs = before @ t @ after) \<longleftrightarrow>
        prefix t (c # cs) \<or> (\<exists>before after. cs = before @ t @ after)"
    (is "?L \<longleftrightarrow> ?R")
  proof
    assume ?L
    then obtain before after where e: "c # cs = before @ t @ after" by blast
    show ?R
    proof (cases before)
      case Nil
      with e show ?thesis by (auto simp: prefix_def)
    next
      case (Cons b bs)
      with e have "cs = bs @ t @ after" by simp
      then show ?thesis by blast
    qed
  next
    assume ?R
    then show ?L
    proof
      assume "prefix t (c # cs)"
      then obtain after where "c # cs = t @ after" by (auto simp: prefix_def)
      then have "c # cs = [] @ t @ after" by simp
      then show ?L by blast
    next
      assume "\<exists>before after. cs = before @ t @ after"
      then obtain before after where "cs = before @ t @ after" by blast
      then have "c # cs = (c # before) @ t @ after" by simp
      then show ?L by blast
    qed
  qed
  with Cons.IH show ?case by simp
qed

subsection \<open>The year of a day\<close>

text \<open>
  \<open>YearFromDay\<close> finds the year ECMAScript asks for: the one whose first day is not
  after the given day while the first day of the next year is.  Years get longer by at
  least one day, so this year is unique.
\<close>

lemma div_shift: "(0::int) < m \<Longrightarrow> (a + k * m) div m = a div m + k"
  by simp

lemma div_step: "(0::int) < m \<Longrightarrow> a div m \<le> (a + 1) div m \<and> (a + 1) div m \<le> a div m + 1"
proof
  assume m: "0 < m"
  show "a div m \<le> (a + 1) div m" by (rule zdiv_mono1) (use m in simp_all)
  have "(a + 1) div m \<le> (a + m) div m" by (rule zdiv_mono1) (use m in simp_all)
  also have "\<dots> = a div m + 1" using div_shift [OF m, of a 1] by simp
  finally show "(a + 1) div m \<le> a div m + 1" .
qed

lemma DayFromYear_cycle: "DayFromYear (y + 400) = DayFromYear y + 146097"
proof -
  have a: "(y + 400 - 1969) div 4 = (y - 1969) div 4 + 100"
    using div_shift [of 4 "y - 1969" 100] by (simp add: algebra_simps)
  have b: "(y + 400 - 1901) div 100 = (y - 1901) div 100 + 4"
    using div_shift [of 100 "y - 1901" 4] by (simp add: algebra_simps)
  have c: "(y + 400 - 1601) div 400 = (y - 1601) div 400 + 1"
    using div_shift [of 400 "y - 1601" 1] by (simp add: algebra_simps)
  show ?thesis unfolding DayFromYear_def a b c by simp
qed

lemma DayFromYear_base: "DayFromYear (1970 + 400 * k) = 146097 * k"
proof -
  have a: "(1970 + 400 * k - 1969) div 4 = 100 * k"
    using div_shift [of 4 1 "100 * k"] by (simp add: algebra_simps)
  have b: "(1970 + 400 * k - 1901) div 100 = 4 * k"
    using div_shift [of 100 69 "4 * k"] by (simp add: algebra_simps)
  have c: "(1970 + 400 * k - 1601) div 400 = k"
    using div_shift [of 400 369 k] by (simp add: algebra_simps)
  show ?thesis unfolding DayFromYear_def a b c by simp
qed

lemma year_longer:
  fixes x p q r p' q' r' :: int
  assumes "p \<le> p'" "q' \<le> q + 1" "r \<le> r'"
  shows "365 * x + p - q + r < 365 * (x + 1) + p' - q' + r'"
  using assms by (simp add: algebra_simps)

lemma DayFromYear_step: "DayFromYear y < DayFromYear (y + 1)"
proof -
  have a: "(y - 1969) div 4 \<le> (y - 1969 + 1) div 4"
    using div_step [of 4 "y - 1969"] by simp
  have b: "(y - 1901 + 1) div 100 \<le> (y - 1901) div 100 + 1"
    using div_step [of 100 "y - 1901"] by simp
  have c: "(y - 1601) div 400 \<le> (y - 1601 + 1) div 400"
    using div_step [of 400 "y - 1601"] by simp
  have e: "y + 1 - 1969 = y - 1969 + 1" "y + 1 - 1901 = y - 1901 + 1"
    "y + 1 - 1601 = y - 1601 + 1" "y + 1 - 1970 = y - 1970 + 1"
    by simp_all
  show ?thesis unfolding DayFromYear_def e by (rule year_longer [OF a b c])
qed

lemma yearSearch_correct:
  "DayFromYear y \<le> d \<Longrightarrow> d < DayFromYear (y + int n) \<Longrightarrow>
   DayFromYear (yearSearch n d y) \<le> d \<and> d < DayFromYear (yearSearch n d y + 1)"
proof (induction n arbitrary: y)
  case 0
  have "DayFromYear y < DayFromYear (y + 1)" by (rule DayFromYear_step)
  with 0 show ?case by simp
next
  case (Suc n)
  show ?case
  proof (cases "DayFromYear (y + 1) \<le> d")
    case True
    have e: "y + int (Suc n) = y + 1 + int n" by simp
    have "d < DayFromYear (y + 1 + int n)" using Suc.prems(2) unfolding e .
    from Suc.IH [OF True this] True show ?thesis by simp
  next
    case False
    with Suc.prems show ?thesis by simp
  qed
qed

lemma YearFromDay_correct:
  "DayFromYear (YearFromDay d) \<le> d \<and> d < DayFromYear (YearFromDay d + 1)"
proof -
  let ?y = "1970 + 400 * (d div 146097)"
  have m: "d = 146097 * (d div 146097) + d mod 146097" by simp
  have r: "0 \<le> d mod 146097" "d mod 146097 < 146097" by simp_all
  have lo: "DayFromYear ?y \<le> d"
    unfolding DayFromYear_base using m r by linarith
  have "DayFromYear (?y + 400) = 146097 * (d div 146097) + 146097"
    unfolding DayFromYear_cycle DayFromYear_base by simp
  then have hi: "d < DayFromYear (?y + int 400)" using m r by simp
  from yearSearch_correct [OF lo hi] show ?thesis by (simp add: YearFromDay_def)
qed

subsection \<open>\<open>addNoteToTicket\<close>\<close>

text \<open>
  Claim C8.  For every ticket id and note body \<open>addNoteToTicket\<close> resolves with a boolean
  and never rejects: it makes the one call \<open>notes.basicApi.create\<close>, and the boolean is
  \<open>false\<close> when that call rejects, whatever the error, and \<open>true\<close> when it succeeds.
\<close>

theorem addNoteToTicket_boolean:
  "addNoteToTicket rt client ticketId noteBody s =
     (case notes_create client (noteInput rt (world s) ticketId noteBody) (world s) of
        (r, w') \<Rightarrow>
          (Inr (case r of Inl e \<Rightarrow> False | Inr created \<Rightarrow> True),
           s\<lparr>world := w',
             calls := calls s @ [NotesCreate (noteInput rt (world s) ticketId noteBody)]\<rparr>))"
  by (auto simp: addNoteToTicket_def await_call_def split: prod.splits sum.splits)

subsection \<open>\<open>getTicketEmails\<close> on a ticket without linked messages\<close>

text \<open>
  Claim C9.  When the ticket lookup returns a ticket with no linked message (no
  associations at all, no \<open>emails\<close> kind among them, or an empty list of results),
  \<open>getTicketEmails\<close> resolves with the empty sequence, and the only call made on the
  client is the ticket lookup itself: no message is fetched.
\<close>

theorem getTicketEmails_no_links:
  assumes "tickets_getById client (ticketEmailsArgs ticketId) (world s) = (Inr ticket, w')"
    and "obj_associations ticket = None \<or>
         (\<exists>assoc. obj_associations ticket = Some assoc \<and>
            (assoc ''emails'' = None \<or> assoc ''emails'' = Some []))"
  shows "getTicketEmails rt client ticketId s =
           (Inr [], s\<lparr>world := w',
                      calls := calls s @ [TicketsGetById (ticketEmailsArgs ticketId)]\<rparr>)"
  using assms
  by (auto simp: getTicketEmails_def await_call_def linkedEmailIds_def)

text \<open>The sample ticket \<open>''2''\<close> has an empty list of linked messages.\<close>

theorem getTicketEmails_no_links_witness:
  "getTicketEmails sample_runtime sample_client ''2'' state0 =
     (Inr [], state0\<lparr>world := 1, calls := [TicketsGetById (ticketEmailsArgs ''2'')]\<rparr>)"
proof -
  have a: "tickets_getById sample_client (ticketEmailsArgs ''2'') (world state0) =
             (Inr (sample_ticket ''2'' (Some [])), 1)"
    by (simp add: sample_client_def ticketEmailsArgs_def state0_def)
  have b: "obj_associations (sample_ticket ''2'' (Some [])) = None \<or>
         (\<exists>assoc. obj_associations (sample_ticket ''2'' (Some [])) = Some assoc \<and>
            (assoc ''emails'' = None \<or> assoc ''emails'' = Some []))"
    by (simp add: sample_ticket_def)
  show ?thesis
    using getTicketEmails_no_links [OF a b, of sample_runtime] by (simp add: state0_def)
qed

subsection \<open>\<open>listTickets\<close>\<close>

lemma pushIn_inClause: "pushIn fg name field = fg @ inClause name field"
  by (simp add: pushIn_def inClause_def split: option.splits list.splits)

lemma pushContainsToken_tokenClause: "pushContainsToken fg field = fg @ tokenClause field"
  by (simp add: pushContainsToken_def tokenClause_def split: option.splits list.splits)

lemma ticketFilterGroups_eq:
  "ticketFilterGroups fs =
     inClause ''group'' (Option.bind fs groups) @
     inClause ''hs_pipeline_stage'' (Option.bind fs statuses) @
     inClause ''hs_ticket_priority'' (Option.bind fs priorities) @
     inClause ''hubspot_owner_id'' (Option.bind fs owners) @
     tokenClause (Option.bind fs searchText)"
  by (simp add: ticketFilterGroups_def pushIn_inClause pushContainsToken_tokenClause)

lemma listTickets_search:
  "ticketFilterGroups fs \<noteq> [] \<Longrightarrow>
   listTickets client fs s =
     (case tickets_doSearch client (searchRequest (ticketFilterGroups fs)) (world s) of
        (r, w') \<Rightarrow>
          (map_sum id (map toTicket) r,
           s\<lparr>world := w',
             calls := calls s @ [TicketsDoSearch (searchRequest (ticketFilterGroups fs))]\<rparr>))"
  by (auto simp: listTickets_def await_call_def Let_def split: prod.splits sum.splits)

lemma listTickets_page:
  "ticketFilterGroups fs = [] \<Longrightarrow>
   listTickets client fs s =
     (case tickets_getPage client pageArgs (world s) of
        (r, w') \<Rightarrow>
          (map_sum id (map toTicket) r,
           s\<lparr>world := w', calls := calls s @ [TicketsGetPage pageArgs]\<rparr>))"
  by (auto simp: listTickets_def await_call_def Let_def split: prod.splits sum.splits)

lemma length_inClause:
  "length (filter (\<lambda>c. operator c = ''IN'') (inClause name field)) =
     (if field = None \<or> field = Some [] then 0 else 1)"
  by (auto simp: inClause_def split: option.splits list.splits)

lemma IN_tokenClause: "filter (\<lambda>c. operator c = ''IN'') (tokenClause field) = []"
  by (auto simp: tokenClause_def split: option.splits list.splits)

lemma TOKEN_inClause: "filter (\<lambda>c. operator c = ''CONTAINS_TOKEN'') (inClause name field) = []"
  by (auto simp: inClause_def split: option.splits list.splits)

lemma TOKEN_tokenClause:
  "filter (\<lambda>c. operator c = ''CONTAINS_TOKEN'') (tokenClause field) = tokenClause field"
  by (auto simp: tokenClause_def split: option.splits list.splits)

text \<open>
  Claim C1.  For every criteria object (\<open>Option.bind fs groups\<close> is \<open>filters?.groups\<close>),
  the clauses \<open>listTickets\<close> builds are: one \<open>IN\<close> clause on \<open>group\<close>,
  \<open>hs_pipeline_stage\<close>, \<open>hs_ticket_priority\<close>, \<open>hubspot_owner_id\<close> for each of \<open>groups\<close>,
  \<open>statuses\<close>, \<open>priorities\<close>, \<open>owners\<close> that is a non-empty array, in this order, then one
  \<open>CONTAINS_TOKEN\<close> clause on \<open>subject\<close> when a (non-empty) free text is supplied, and
  nothing else; an empty array gives no clause.  So the number of \<open>IN\<close> clauses is the
  number of non-empty arrays.  When there is at least one clause, \<open>listTickets\<close> makes
  exactly one call, the structured search with all the clauses in a single filter group,
  the ticket properties, limit 100 and no sort.
\<close>

theorem listTickets_clauses:
  "ticketFilterGroups fs =
     inClause ''group'' (Option.bind fs groups) @
     inClause ''hs_pipeline_stage'' (Option.bind fs statuses) @
     inClause ''hs_ticket_priority'' (Option.bind fs priorities) @
     inClause ''hubspot_owner_id'' (Option.bind fs owners) @
     tokenClause (Option.bind fs searchText) \<and>
   length (filter (\<lambda>c. operator c = ''IN'') (ticketFilterGroups fs)) =
     length (filter (\<lambda>field. field \<noteq> None \<and> field \<noteq> Some [])
       [Option.bind fs groups, Option.bind fs statuses, Option.bind fs priorities,
        Option.bind fs owners]) \<and>
   filter (\<lambda>c. operator c = ''CONTAINS_TOKEN'') (ticketFilterGroups fs) =
     tokenClause (Option.bind fs searchText) \<and>
   (ticketFilterGroups fs \<noteq> [] \<longrightarrow>
      listTickets client fs s =
        (case tickets_doSearch client
                \<lparr>sr_filterGroups = [\<lparr>filters = ticketFilterGroups fs\<rparr>],
                 sr_properties = TICKET_PROPERTIES, sr_limit = 100, sr_sorts = [],
                 sr_after = ''0''\<rparr> (world s) of
           (r, w') \<Rightarrow>
             (map_sum id (map toTicket) r,
              s\<lparr>world := w',
                calls := calls s @
                  [TicketsDoSearch
                     \<lparr>sr_filterGroups = [\<lparr>filters = ticketFilterGroups fs\<rparr>],
                      sr_properties = TICKET_PROPERTIES, sr_limit = 100, sr_sorts = [],
                      sr_after = ''0''\<rparr>]\<rparr>)))"
proof (intro conjI impI)
  show "ticketFilterGroups fs =
     inClause ''group'' (Option.bind fs groups) @
     inClause ''hs_pipeline_stage'' (Option.bind fs statuses) @
     inClause ''hs_ticket_priority'' (Option.bind fs priorities) @
     inClause ''hubspot_owner_id'' (Option.bind fs owners) @
     tokenClause (Option.bind fs searchText)"
    by (rule ticketFilterGroups_eq)
  show "length (filter (\<lambda>c. operator c = ''IN'') (ticketFilterGroups fs)) =
     length (filter (\<lambda>field. field \<noteq> None \<and> field \<noteq> Some [])
       [Option.bind fs groups, Option.bind fs statuses, Option.bind fs priorities,
        Option.bind fs owners])"
    by (simp add: ticketFilterGroups_eq length_inClause IN_tokenClause)
  show "filter (\<lambda>c. operator c = ''CONTAINS_TOKEN'') (ticketFilterGroups fs) =
     tokenClause (Option.bind fs searchText)"
    by (simp add: ticketFilterGroups_eq TOKEN_inClause TOKEN_tokenClause)
next
  assume "ticketFilterGroups fs \<noteq> []"
  from listTickets_search [OF this, of client s]
  show "listTickets client fs s =
        (case tickets_doSearch client
                \<lparr>sr_filterGroups = [\<lparr>filters = ticketFilterGroups fs\<rparr>],
                 sr_properties = TICKET_PROPERTIES, sr_limit = 100, sr_sorts = [],
                 sr_after = ''0''\<rparr> (world s) of
           (r, w') \<Rightarrow>
             (map_sum id (map toTicket) r,
              s\<lparr>world := w',
                calls := calls s @
                  [TicketsDoSearch
                     \<lparr>sr_filterGroups = [\<lparr>filters = ticketFilterGroups fs\<rparr>],
                      sr_properties = TICKET_PROPERTIES, sr_limit = 100, sr_sorts = [],
                      sr_after = ''0''\<rparr>]\<rparr>))"
    by (simp add: searchRequest_def)
qed

text \<open>The sample criteria give three clauses and one search.\<close>

lemma sample_clauses:
  "ticketFilterGroups (Some sample_filters) =
     [\<lparr>propertyName = ''group'', operator = ''IN'',
        values_opt = Some [''Mobile'', ''Front-end''], value_opt = None\<rparr>,
      \<lparr>propertyName = ''hubspot_owner_id'', operator = ''IN'',
        values_opt = Some [''10''], value_opt = None\<rparr>,
      \<lparr>propertyName = ''subject'', operator = ''CONTAINS_TOKEN'',
        values_opt = None, value_opt = Some ''Syncing''\<rparr>]"
  by (simp add: ticketFilterGroups_def sample_filters_def pushIn_def pushContainsToken_def)

theorem listTickets_clauses_witness:
  "ticketFilterGroups (Some sample_filters) \<noteq> [] \<and>
   length (filter (\<lambda>c. operator c = ''IN'') (ticketFilterGroups (Some sample_filters))) = 2 \<and>
   listTickets sample_client (Some sample_filters) state0 =
     (Inr [toTicket (sample_ticket ''1'' (Some [''e1'']))],
      state0\<lparr>world := 1,
        calls := [TicketsDoSearch
            \<lparr>sr_filterGroups = [\<lparr>filters = ticketFilterGroups (Some sample_filters)\<rparr>],
             sr_properties = TICKET_PROPERTIES, sr_limit = 100, sr_sorts = [],
             sr_after = ''0''\<rparr>]\<rparr>)"
proof -
  have ne: "ticketFilterGroups (Some sample_filters) \<noteq> []"
    by (simp add: sample_clauses)
  have n: "length (filter (\<lambda>c. operator c = ''IN'') (ticketFilterGroups (Some sample_filters))) = 2"
    by (simp add: sample_clauses)
  from listTickets_clauses [of "Some sample_filters" sample_client state0] ne
  have "listTickets sample_client (Some sample_filters) state0 =
        (case tickets_doSearch sample_client
                \<lparr>sr_filterGroups = [\<lparr>filters = ticketFilterGroups (Some sample_filters)\<rparr>],
                 sr_properties = TICKET_PROPERTIES, sr_limit = 100, sr_sorts = [],
                 sr_after = ''0''\<rparr> (world state0) of
           (r, w') \<Rightarrow>
             (map_sum id (map toTicket) r,
              state0\<lparr>world := w',
                calls := calls state0 @
                  [TicketsDoSearch
                     \<lparr>sr_filterGroups = [\<lparr>filters = ticketFilterGroups (Some sample_filters)\<rparr>],
                      sr_properties = TICKET_PROPERTIES, sr_limit = 100, sr_sorts = [],
                      sr_after = ''0''\<rparr>]\<rparr>))"
    by blast
  then have "listTickets sample_client (Some sample_filters) state0 =
     (Inr [toTicket (sample_ticket ''1'' (Some [''e1'']))],
      state0\<lparr>world := 1,
        calls := [TicketsDoSearch
            \<lparr>sr_filterGroups = [\<lparr>filters = ticketFilterGroups (Some sample_filters)\<rparr>],
             sr_properties = TICKET_PROPERTIES, sr_limit = 100, sr_sorts = [],
             sr_after = ''0''\<rparr>]\<rparr>)"
    by (simp add: sample_client_def state0_def)
  with ne n show ?thesis by blast
qed

text \<open>
  Claim C2.  When every field of the criteria is empty or absent (or no criteria object is
  passed), no clause is built and the one call made is the plain listing, with limit 100,
  the ticket properties and no filter.  On both paths the result is the \<open>results\<close> of the
  call made, each mapped to \<open>{ id, properties }\<close>, and both calls ask for the same limit
  and the same properties.
\<close>

theorem listTickets_plain_listing:
  assumes "fs = None \<or>
           (\<exists>f. fs = Some f \<and> groups f \<in> {None, Some []} \<and> statuses f \<in> {None, Some []} \<and>
                priorities f \<in> {None, Some []} \<and> owners f \<in> {None, Some []} \<and>
                searchText f \<in> {None, Some ''''})"
  shows "ticketFilterGroups fs = [] \<and>
         listTickets client fs s =
           (case tickets_getPage client
                   \<lparr>gp_limit = Some 100, gp_after = None,
                    gp_properties = Some TICKET_PROPERTIES, gp_propertiesWithHistory = None,
                    gp_associations = None, gp_archived = Some False\<rparr> (world s) of
              (r, w') \<Rightarrow>
                (map_sum id (map toTicket) r,
                 s\<lparr>world := w',
                   calls := calls s @
                     [TicketsGetPage
                        \<lparr>gp_limit = Some 100, gp_after = None,
                         gp_properties = Some TICKET_PROPERTIES,
                         gp_propertiesWithHistory = None, gp_associations = None,
                         gp_archived = Some False\<rparr>]\<rparr>)) \<and>
         (\<forall>fs'. fst (listTickets client fs' s) =
            map_sum id (map toTicket)
              (if ticketFilterGroups fs' = []
               then fst (tickets_getPage client pageArgs (world s))
               else fst (tickets_doSearch client (searchRequest (ticketFilterGroups fs'))
                           (world s)))) \<and>
         (\<forall>clauses. sr_limit (searchRequest clauses) = 100 \<and>
            Some (sr_limit (searchRequest clauses)) = gp_limit pageArgs \<and>
            Some (sr_properties (searchRequest clauses)) = gp_properties pageArgs)"
proof -
  have e: "ticketFilterGroups fs = []"
    using assms
    by (auto simp: ticketFilterGroups_def pushIn_def pushContainsToken_def)
  have p: "listTickets client fs s =
           (case tickets_getPage client
                   \<lparr>gp_limit = Some 100, gp_after = None,
                    gp_properties = Some TICKET_PROPERTIES, gp_propertiesWithHistory = None,
                    gp_associations = None, gp_archived = Some False\<rparr> (world s) of
              (r, w') \<Rightarrow>
                (map_sum id (map toTicket) r,
                 s\<lparr>world := w',
                   calls := calls s @
                     [TicketsGetPage
                        \<lparr>gp_limit = Some 100, gp_after = None,
                         gp_properties = Some TICKET_PROPERTIES,
                         gp_propertiesWithHistory = None, gp_associations = None,
                         gp_archived = Some False\<rparr>]\<rparr>))"
    using listTickets_page [OF e, of client s] by (simp add: pageArgs_def)
  have b: "fst (listTickets client fs' s) =
            map_sum id (map toTicket)
              (if ticketFilterGroups fs' = []
               then fst (tickets_getPage client pageArgs (world s))
               else fst (tickets_doSearch client (searchRequest (ticketFilterGroups fs'))
                           (world s)))" for fs'
    by (cases "ticketFilterGroups fs' = []")
       (simp_all add: listTickets_page listTickets_search split: prod.splits)
  have c: "sr_limit (searchRequest clauses) = 100 \<and>
            Some (sr_limit (searchRequest clauses)) = gp_limit pageArgs \<and>
            Some (sr_properties (searchRequest clauses)) = gp_properties pageArgs" for clauses
    by (simp add: searchRequest_def pageArgs_def)
  from e p b c show ?thesis by blast
qed

theorem listTickets_plain_listing_witness:
  "ticketFilterGroups (Some empty_filters) = [] \<and>
   listTickets sample_client (Some empty_filters) state0 =
     (Inr [toTicket (sample_ticket ''1'' (Some [''e1''])), toTicket (sample_ticket ''2'' None)],
      state0\<lparr>world := 1,
        calls := [TicketsGetPage
           \<lparr>gp_limit = Some 100, gp_after = None, gp_properties = Some TICKET_PROPERTIES,
            gp_propertiesWithHistory = None, gp_associations = None,
            gp_archived = Some False\<rparr>]\<rparr>)"
proof -
  have h: "Some empty_filters = None \<or>
           (\<exists>f. Some empty_filters = Some f \<and> groups f \<in> {None, Some []} \<and>
                statuses f \<in> {None, Some []} \<and>
                priorities f \<in> {None, Some []} \<and> owners f \<in> {None, Some []} \<and>
                searchText f \<in> {None, Some ''''})"
    by (simp add: empty_filters_def)
  show ?thesis
    using listTickets_plain_listing [OF h, of sample_client state0]
    by (simp add: sample_client_def state0_def)
qed

subsection \<open>\<open>listOwners\<close>\<close>

lemma sample_owners_eq:
  "sample_owners =
     [\<lparr>owner_id = ''10'', owner_email = ''ryan@x.com'', owner_firstName = ''Ryan'',
        owner_lastName = ''Jones'', owner_fullName = ''Ryan Jones''\<rparr>,
      \<lparr>owner_id = ''11'', owner_email = ''RYAN@x.com'', owner_firstName = ''Kim'',
        owner_lastName = [], owner_fullName = ''Kim''\<rparr>,
      \<lparr>owner_id = ''12'', owner_email = ''b@x.com'', owner_firstName = ''Bryant'',
        owner_lastName = ''Lee'', owner_fullName = ''Bryant Lee''\<rparr>]"
  by code_simp

lemma listOwners_hit:
  "ownerCache s = Some cached \<Longrightarrow> listOwners client s = (Inr cached, s)"
  by (simp add: listOwners_def)

lemma listOwners_success:
  "ownerCache s = None \<Longrightarrow>
   owners_getPage client None None None (world s) = (Inr results, w') \<Longrightarrow>
   listOwners client s =
     (Inr (map toOwner results),
      s\<lparr>ownerCache := Some (map toOwner results), world := w',
        calls := calls s @ [OwnersGetPage None None None]\<rparr>)"
  by (simp add: listOwners_def await_call_def Let_def)

lemma listOwners_failure:
  "ownerCache s = None \<Longrightarrow>
   owners_getPage client None None None (world s) = (Inl e, w') \<Longrightarrow>
   listOwners client s =
     (Inr [], s\<lparr>world := w', calls := calls s @ [OwnersGetPage None None None]\<rparr>)"
  by (simp add: listOwners_def await_call_def)

lemma listOwnersRepeatedly_hit:
  "ownerCache s = Some cached \<Longrightarrow>
   listOwnersRepeatedly client changes s =
     (replicate (length changes) (Inr cached), s\<lparr>world := fold (\<lambda>change. change) changes (world s)\<rparr>)"
proof (induction changes arbitrary: s)
  case Nil
  then show ?case by simp
next
  case (Cons change changes)
  let ?s = "s\<lparr>world := change (world s)\<rparr>"
  have c: "ownerCache ?s = Some cached" using Cons.prems by simp
  show ?case
    by (simp add: listOwners_hit [OF c] Cons.IH [OF c])
qed

text \<open>
  Claim C5.  The cache decides whether \<open>listOwners\<close> fetches.
  (1) Once the cache is populated, every later call, whatever happens to the outside
  world between the calls, resolves with the cached sequence, makes no call on the client
  and leaves the cache as it is.
  (2) With an empty cache and an upstream success, the call fetches once, resolves with
  the mapped owners and stores them; all the calls after it, even through another client
  and after any upstream change, return that same sequence without another fetch.
  (3) With an empty cache and an upstream failure, the call resolves with the empty
  sequence and the cache stays empty, so that the next call fetches again.
\<close>

theorem listOwners_cache:
  "(ownerCache s = Some cached \<longrightarrow>
      listOwnersRepeatedly client changes s =
        (replicate (length changes) (Inr cached),
         s\<lparr>world := fold (\<lambda>change. change) changes (world s)\<rparr>)) \<and>
   (ownerCache s = None \<and>
    owners_getPage client None None None (world s) = (Inr results, w') \<longrightarrow>
      listOwners client s =
        (Inr (map toOwner results),
         s\<lparr>ownerCache := Some (map toOwner results), world := w',
           calls := calls s @ [OwnersGetPage None None None]\<rparr>) \<and>
      listOwnersRepeatedly client' changes (snd (listOwners client s)) =
        (replicate (length changes) (Inr (map toOwner results)),
         s\<lparr>ownerCache := Some (map toOwner results),
           world := fold (\<lambda>change. change) changes w',
           calls := calls s @ [OwnersGetPage None None None]\<rparr>)) \<and>
   (ownerCache s = None \<and>
    owners_getPage client None None None (world s) = (Inl e, w') \<longrightarrow>
      listOwners client s =
        (Inr [], s\<lparr>world := w', calls := calls s @ [OwnersGetPage None None None]\<rparr>) \<and>
      ownerCache (snd (listOwners client s)) = None \<and>
      calls (snd (listOwners client' (snd (listOwners client s)))) =
        calls s @ [OwnersGetPage None None None, OwnersGetPage None None None])"
proof (intro conjI impI)
  assume "ownerCache s = Some cached"
  then show "listOwnersRepeatedly client changes s =
        (replicate (length changes) (Inr cached),
         s\<lparr>world := fold (\<lambda>change. change) changes (world s)\<rparr>)"
    by (rule listOwnersRepeatedly_hit)
next
  assume a: "ownerCache s = None \<and>
    owners_getPage client None None None (world s) = (Inr results, w')"
  then show 1: "listOwners client s =
        (Inr (map toOwner results),
         s\<lparr>ownerCache := Some (map toOwner results), world := w',
           calls := calls s @ [OwnersGetPage None None None]\<rparr>)"
    by (simp add: listOwners_success)
  show "listOwnersRepeatedly client' changes (snd (listOwners client s)) =
        (replicate (length changes) (Inr (map toOwner results)),
         s\<lparr>ownerCache := Some (map toOwner results),
           world := fold (\<lambda>change. change) changes w',
           calls := calls s @ [OwnersGetPage None None None]\<rparr>)"
    by (simp add: 1 listOwnersRepeatedly_hit)
next
  assume a: "ownerCache s = None \<and>
    owners_getPage client None None None (world s) = (Inl e, w')"
  then show 1: "listOwners client s =
        (Inr [], s\<lparr>world := w', calls := calls s @ [OwnersGetPage None None None]\<rparr>)"
    by (simp add: listOwners_failure)
  from a show "ownerCache (snd (listOwners client s)) = None"
    by (simp add: 1)
  from a show "calls (snd (listOwners client' (snd (listOwners client s)))) =
        calls s @ [OwnersGetPage None None None, OwnersGetPage None None None]"
    by (simp add: 1 listOwners_def await_call_def Let_def split: prod.splits sum.splits)
qed

text \<open>
  The sample directory fails at the first call, answers three owners at the second, and
  would answer four from the fourth call on; the cached three keep being returned.
\<close>

theorem listOwners_cache_witness:
  "listOwners sample_client state0 =
     (Inr [], state0\<lparr>world := 1, calls := [OwnersGetPage None None None]\<rparr>) \<and>
   listOwners sample_client (state0\<lparr>world := 1, calls := [OwnersGetPage None None None]\<rparr>) =
     (Inr sample_owners, state_cached) \<and>
   listOwnersRepeatedly sample_client [\<lambda>w. w + 5, \<lambda>w. 0] state_cached =
     ([Inr sample_owners, Inr sample_owners], state_cached\<lparr>world := 0\<rparr>)"
proof -
  let ?s1 = "state0\<lparr>world := 1, calls := [OwnersGetPage None None None]\<rparr>"
  have f: "ownerCache state0 = None \<and>
    owners_getPage sample_client None None None (world state0) = (Inl (ApiError ''503''), 1)"
    by (simp add: state0_def sample_client_def)
  have g: "ownerCache ?s1 = None \<and>
    owners_getPage sample_client None None None (world ?s1) =
      (Inr [owner_ryan, owner_kim, owner_bryant], 2)"
    by (simp add: state0_def sample_client_def)
  have h: "ownerCache state_cached = Some sample_owners"
    by (simp add: state_cached_def)
  have 1: "listOwners sample_client state0 = (Inr [], ?s1)"
    using listOwners_cache [where s = state0 and client = sample_client and e = "ApiError ''503''"
          and w' = 1] f
    by (simp add: state0_def)
  have 2: "listOwners sample_client ?s1 = (Inr sample_owners, state_cached)"
    using listOwners_cache [where s = ?s1 and client = sample_client
          and results = "[owner_ryan, owner_kim, owner_bryant]" and w' = 2] g
    by (simp add: state0_def state_cached_def sample_owners_def)
  have 3: "listOwnersRepeatedly sample_client [\<lambda>w. w + 5, \<lambda>w. 0] state_cached =
     ([Inr sample_owners, Inr sample_owners], state_cached\<lparr>world := 0\<rparr>)"
    using listOwners_cache [where s = state_cached and cached = sample_owners
          and client = sample_client and changes = "[\<lambda>w. w + 5, \<lambda>w. 0]"] h
    by (simp add: numeral_2_eq_2)
  from 1 2 3 show ?thesis by blast
qed

subsection \<open>\<open>findOwnersByName\<close>\<close>

lemma ownerMatchesWith_eq:
  "ownerMatchesWith lc (lc searchName) =
     (\<lambda>owner. occursIn lc searchName (owner_fullName owner) \<or>
              occursIn lc searchName (owner_firstName owner) \<or>
              occursIn lc searchName (owner_lastName owner) \<or>
              occursIn lc searchName (owner_email owner))"
  by (rule ext) (simp add: ownerMatchesWith_def occursIn_def str_includes_iff)

lemma str_includes_Nil: "str_includes s []"
  by (cases s) simp_all

lemma findOwnersByNameWith_hit:
  "ownerCache s = Some cached \<Longrightarrow>
   findOwnersByNameWith lc client searchName s =
     (Inr (map toOwnerRef (filter (ownerMatchesWith lc (lc searchName)) cached)), s)"
  by (simp add: findOwnersByNameWith_def listOwners_hit)

text \<open>
  Claim C6.  For every search term, every cached owner set and whatever the lower-casing
  \<open>lc\<close> of the runtime does to a string, \<open>findOwnersByName\<close> resolves with exactly the
  cached owners, in their order and projected to \<open>{ id, email, fullName }\<close>, for which
  the lower-cased term occurs as a substring in the lower-cased full name, first name,
  last name or email; the cache and the outside world are untouched.  The result is the
  empty sequence, not an error, exactly when no owner matches.  Two terms with the same
  lower-case form give the same result: the case of the term does not matter.
\<close>

theorem findOwnersByName_substring:
  assumes "ownerCache s = Some cached"
  shows "findOwnersByNameWith lc client searchName s =
           (Inr (map toOwnerRef
              (filter (\<lambda>owner. occursIn lc searchName (owner_fullName owner) \<or>
                               occursIn lc searchName (owner_firstName owner) \<or>
                               occursIn lc searchName (owner_lastName owner) \<or>
                               occursIn lc searchName (owner_email owner)) cached)), s) \<and>
         (fst (findOwnersByNameWith lc client searchName s) = Inr [] \<longleftrightarrow>
            \<not> (\<exists>owner \<in> set cached.
                 occursIn lc searchName (owner_fullName owner) \<or>
                 occursIn lc searchName (owner_firstName owner) \<or>
                 occursIn lc searchName (owner_lastName owner) \<or>
                 occursIn lc searchName (owner_email owner))) \<and>
         (lc otherName = lc searchName \<longrightarrow>
            findOwnersByNameWith lc client otherName s =
            findOwnersByNameWith lc client searchName s)"
proof -
  note hit = findOwnersByNameWith_hit [OF assms, of lc client]
  have 1: "findOwnersByNameWith lc client searchName s =
           (Inr (map toOwnerRef
              (filter (\<lambda>owner. occursIn lc searchName (owner_fullName owner) \<or>
                               occursIn lc searchName (owner_firstName owner) \<or>
                               occursIn lc searchName (owner_lastName owner) \<or>
                               occursIn lc searchName (owner_email owner)) cached)), s)"
    unfolding hit ownerMatchesWith_eq by simp
  have 2: "fst (findOwnersByNameWith lc client searchName s) = Inr [] \<longleftrightarrow>
            \<not> (\<exists>owner \<in> set cached.
                 occursIn lc searchName (owner_fullName owner) \<or>
                 occursIn lc searchName (owner_firstName owner) \<or>
                 occursIn lc searchName (owner_lastName owner) \<or>
                 occursIn lc searchName (owner_email owner))"
    unfolding 1 by (auto simp: filter_empty_conv)
  have 3: "lc otherName = lc searchName \<longrightarrow>
            findOwnersByNameWith lc client otherName s =
            findOwnersByNameWith lc client searchName s"
    by (simp add: hit)
  from 1 2 3 show ?thesis by blast
qed

text \<open>
  With the ASCII lower-casing, \<open>ryan\<close> matches the full name \<open>Ryan Jones\<close>, the email
  \<open>RYAN@x.com\<close> and, as a substring, \<open>Bryant\<close>; \<open>RYAN\<close> finds the same owners;
  \<open>Jones R\<close> matches nothing.
\<close>

theorem findOwnersByName_substring_witness:
  "findOwnersByNameWith toLowerCase sample_client ''ryan'' state_cached =
     (Inr [\<lparr>ref_id = ''10'', ref_email = ''ryan@x.com'', ref_fullName = ''Ryan Jones''\<rparr>,
           \<lparr>ref_id = ''11'', ref_email = ''RYAN@x.com'', ref_fullName = ''Kim''\<rparr>,
           \<lparr>ref_id = ''12'', ref_email = ''b@x.com'', ref_fullName = ''Bryant Lee''\<rparr>],
      state_cached) \<and>
   findOwnersByNameWith toLowerCase sample_client ''RYAN'' state_cached =
     findOwnersByNameWith toLowerCase sample_client ''ryan'' state_cached \<and>
   findOwnersByNameWith toLowerCase sample_client ''Jones R'' state_cached =
     (Inr [], state_cached)"
proof -
  have h: "ownerCache state_cached = Some sample_owners"
    by (simp add: state_cached_def)
  have a: "map toOwnerRef
             (filter (ownerMatchesWith toLowerCase (toLowerCase ''ryan'')) sample_owners) =
          [\<lparr>ref_id = ''10'', ref_email = ''ryan@x.com'', ref_fullName = ''Ryan Jones''\<rparr>,
           \<lparr>ref_id = ''11'', ref_email = ''RYAN@x.com'', ref_fullName = ''Kim''\<rparr>,
           \<lparr>ref_id = ''12'', ref_email = ''b@x.com'', ref_fullName = ''Bryant Lee''\<rparr>]"
    by code_simp
  have b: "map toOwnerRef
             (filter (ownerMatchesWith toLowerCase (toLowerCase ''Jones R'')) sample_owners) = []"
    by code_simp
  have c: "toLowerCase ''RYAN'' = toLowerCase ''ryan''"
    by code_simp
  from findOwnersByName_substring [OF h, of toLowerCase sample_client "''ryan''"] a
  have 1: "findOwnersByNameWith toLowerCase sample_client ''ryan'' state_cached =
     (Inr [\<lparr>ref_id = ''10'', ref_email = ''ryan@x.com'', ref_fullName = ''Ryan Jones''\<rparr>,
           \<lparr>ref_id = ''11'', ref_email = ''RYAN@x.com'', ref_fullName = ''Kim''\<rparr>,
           \<lparr>ref_id = ''12'', ref_email = ''b@x.com'', ref_fullName = ''Bryant Lee''\<rparr>],
      state_cached)"
    unfolding ownerMatchesWith_eq by simp
  from findOwnersByName_substring [OF h, where lc = toLowerCase and otherName = "''RYAN''"
      and searchName = "''ryan''" and client = sample_client] c
  have 2: "findOwnersByNameWith toLowerCase sample_client ''RYAN'' state_cached =
     findOwnersByNameWith toLowerCase sample_client ''ryan'' state_cached"
    by blast
  from findOwnersByName_substring [OF h, of toLowerCase sample_client "''Jones R''"] b
  have 3: "findOwnersByNameWith toLowerCase sample_client ''Jones R'' state_cached =
     (Inr [], state_cached)"
    unfolding ownerMatchesWith_eq by simp
  from 1 2 3 show ?thesis by blast
qed

text \<open>
  Claim C10.  For the empty search term \<open>findOwnersByName\<close> resolves with every cached
  owner, projected to \<open>{ id, email, fullName }\<close>; and for every term and every state it
  resolves, it never rejects.
\<close>

theorem findOwnersByName_empty_term:
  "(ownerCache s = Some cached \<longrightarrow>
      findOwnersByName client [] s = (Inr (map toOwnerRef cached), s)) \<and>
   (\<exists>refs. fst (findOwnersByName client searchName s) = Inr refs)"
proof
  show "ownerCache s = Some cached \<longrightarrow>
      findOwnersByName client [] s = (Inr (map toOwnerRef cached), s)"
    by (auto simp: findOwnersByName_def findOwnersByNameWith_hit ownerMatchesWith_def
        toLowerCase_def str_includes_Nil)
  show "\<exists>refs. fst (findOwnersByName client searchName s) = Inr refs"
    by (auto simp: findOwnersByName_def findOwnersByNameWith_def listOwners_def Let_def
        split: option.splits prod.splits sum.splits)
qed

theorem findOwnersByName_empty_term_witness:
  "findOwnersByName sample_client [] state_cached =
     (Inr [\<lparr>ref_id = ''10'', ref_email = ''ryan@x.com'', ref_fullName = ''Ryan Jones''\<rparr>,
           \<lparr>ref_id = ''11'', ref_email = ''RYAN@x.com'', ref_fullName = ''Kim''\<rparr>,
           \<lparr>ref_id = ''12'', ref_email = ''b@x.com'', ref_fullName = ''Bryant Lee''\<rparr>],
      state_cached)"
proof -
  have h: "ownerCache state_cached = Some sample_owners"
    by (simp add: state_cached_def)
  show ?thesis
    using findOwnersByName_empty_term [of state_cached sample_owners sample_client] h
    by (simp add: sample_owners_eq toOwnerRef_def)
qed

subsection \<open>\<open>getTicketEmails\<close> on a ticket with linked messages\<close>

lemma fetchEmails_outcomes:
  "fetchEmails rt client ids emails s =
     (emails @ succeeded (fst (fetchOutcomes rt client ids s)),
      snd (fetchOutcomes rt client ids s))"
proof (induction ids arbitrary: emails s)
  case Nil
  then show ?case by simp
next
  case (Cons emailId rest)
  obtain outcome s' where g: "getEmailContent rt client emailId s = (outcome, s')"
    by (cases "getEmailContent rt client emailId s")
  show ?case
    by (cases outcome) (simp_all add: g Cons.IH split: prod.splits)
qed

lemma length_fetchOutcomes: "length (fst (fetchOutcomes rt client ids s)) = length ids"
proof (induction ids arbitrary: s)
  case Nil
  then show ?case by simp
next
  case (Cons emailId rest)
  obtain outcome s' where g: "getEmailContent rt client emailId s = (outcome, s')"
    by (cases "getEmailContent rt client emailId s")
  from Cons.IH [of s'] show ?case
    by (auto simp: g split: prod.splits)
qed

lemma mset_sortInsert: "mset (sortInsert comparefn x ys) = add_mset x (mset ys)"
  by (induction ys) auto

lemma mset_arraySort: "mset (arraySort comparefn xs) = mset xs"
  by (induction xs) (auto simp: arraySort_def mset_sortInsert)

lemma sortInsert_insort_key:
  assumes "emailDate rt x \<noteq> None" and "list_all (\<lambda>y. emailDate rt y \<noteq> None) ys"
  shows "sortInsert (compareEmails rt) x ys = insort_key (orderingTime rt) x ys"
  using assms
  by (induction ys) (auto simp: sortCompare_def compareEmails_def orderingTime_def)

lemma arraySort_sort_key:
  assumes "list_all (\<lambda>y. emailDate rt y \<noteq> None) xs"
  shows "arraySort (compareEmails rt) xs = sort_key (orderingTime rt) xs"
  using assms
proof (induction xs)
  case Nil
  then show ?case by (simp add: arraySort_def)
next
  case (Cons x xs)
  then have ih: "arraySort (compareEmails rt) xs = sort_key (orderingTime rt) xs"
    and x: "emailDate rt x \<noteq> None" and xs: "list_all (\<lambda>y. emailDate rt y \<noteq> None) xs"
    by simp_all
  from xs have "list_all (\<lambda>y. emailDate rt y \<noteq> None) (sort_key (orderingTime rt) xs)"
    by (simp add: list_all_iff)
  from sortInsert_insort_key [OF x this] ih show ?case
    by (simp add: arraySort_def sort_key_def)
qed

lemma getTicketEmails_fetch:
  assumes "tickets_getById client (ticketEmailsArgs ticketId) (world s) = (Inr ticket, w')"
    and "linkedEmailIds ticket \<noteq> []"
  shows "getTicketEmails rt client ticketId s =
           (case fetchOutcomes rt client (linkedEmailIds ticket)
                   (s\<lparr>world := w',
                      calls := calls s @ [TicketsGetById (ticketEmailsArgs ticketId)]\<rparr>) of
              (outcomes, s'') \<Rightarrow> (Inr (arraySort (compareEmails rt) (succeeded outcomes)), s''))"
  using assms
  by (simp add: getTicketEmails_def await_call_def fetchEmails_outcomes split: prod.splits)

text \<open>
  Claim C3, amended.  For every ticket with linked messages, \<open>getTicketEmails\<close> resolves
  (no error surfaces) with exactly the messages whose fetch and normalisation succeeded:
  the failing ones are dropped.  When the timestamp of every retained message parses as
  a date, the result is these messages sorted ascending by that time, in a stable way;
  a retained message without a timestamp would count as epoch zero.  (A record-level
  creation timestamp that \<open>getEmailContent\<close> passes through as a string may be no date;
  the comparator then returns \<open>NaN\<close> and the order is left open.)
\<close>

theorem getTicketEmails_partial_sorted:
  assumes "tickets_getById client (ticketEmailsArgs ticketId) (world s) = (Inr ticket, w')"
    and "linkedEmailIds ticket \<noteq> []"
    and "fetchOutcomes rt client (linkedEmailIds ticket)
           (s\<lparr>world := w', calls := calls s @ [TicketsGetById (ticketEmailsArgs ticketId)]\<rparr>) =
         (outcomes, s'')"
  shows "\<exists>emails.
           getTicketEmails rt client ticketId s = (Inr emails, s'') \<and>
           mset emails = mset (succeeded outcomes) \<and>
           length outcomes = length (linkedEmailIds ticket) \<and>
           (list_all (\<lambda>message. emailDate rt message \<noteq> None) (succeeded outcomes) \<longrightarrow>
              emails = sort_key (orderingTime rt) (succeeded outcomes) \<and>
              sorted (map (orderingTime rt) emails))"
proof -
  let ?emails = "arraySort (compareEmails rt) (succeeded outcomes)"
  have 1: "getTicketEmails rt client ticketId s = (Inr ?emails, s'')"
    using getTicketEmails_fetch [OF assms(1,2), of rt] assms(3) by simp
  have 2: "mset ?emails = mset (succeeded outcomes)"
    by (rule mset_arraySort)
  have 3: "length outcomes = length (linkedEmailIds ticket)"
    using length_fetchOutcomes [of rt client "linkedEmailIds ticket"] assms(3)
    by (metis fst_conv)
  have 4: "?emails = sort_key (orderingTime rt) (succeeded outcomes) \<and>
           sorted (map (orderingTime rt) ?emails)"
    if "list_all (\<lambda>message. emailDate rt message \<noteq> None) (succeeded outcomes)"
    using arraySort_sort_key [OF that] by simp
  from 1 2 3 4 show ?thesis by blast
qed

lemma sample_ticket1:
  "tickets_getById sample_client (ticketEmailsArgs ''1'') (world state0) =
     (Inr (sample_ticket ''1'' (Some [''e1'', ''e2'', ''e3''])), 1)"
  by (simp add: sample_client_def ticketEmailsArgs_def state0_def)

lemma sample_links1:
  "linkedEmailIds (sample_ticket ''1'' (Some [''e1'', ''e2'', ''e3''])) = [''e1'', ''e2'', ''e3'']"
  by (simp add: linkedEmailIds_def sample_ticket_def)

lemma sample_outcomes1:
  "fst (fetchOutcomes sample_runtime sample_client [''e1'', ''e2'', ''e3'']
          (state0\<lparr>world := 1, calls := calls state0 @ [TicketsGetById (ticketEmailsArgs ''1'')]\<rparr>)) =
     [Some message_e1, None, Some message_e3]"
  by code_simp

lemma sample_dates1:
  "emailDate sample_runtime message_e1 = Some 1700000000000"
  "emailDate sample_runtime message_e3 = Some 1600000000000"
  by code_simp+

text \<open>
  Of the three messages linked to the sample ticket \<open>''1''\<close> the second cannot be
  fetched: the two others are returned, the older one first.
\<close>

theorem getTicketEmails_partial_sorted_witness:
  "fst (getTicketEmails sample_runtime sample_client ''1'' state0) =
     Inr [message_e3, message_e1]"
proof -
  let ?s1 = "state0\<lparr>world := 1, calls := calls state0 @ [TicketsGetById (ticketEmailsArgs ''1'')]\<rparr>"
  let ?ticket = "sample_ticket ''1'' (Some [''e1'', ''e2'', ''e3''])"
  let ?out = "fetchOutcomes sample_runtime sample_client (linkedEmailIds ?ticket) ?s1"
  have b: "linkedEmailIds ?ticket \<noteq> []"
    by (simp add: sample_links1)
  have c: "?out = ([Some message_e1, None, Some message_e3], snd ?out)"
    using sample_outcomes1 by (simp add: sample_links1 prod_eq_iff)
  have d: "list_all (\<lambda>message. emailDate sample_runtime message \<noteq> None)
             (succeeded [Some message_e1, None, Some message_e3])"
    by (simp add: sample_dates1)
  have o: "orderingTime sample_runtime message_e1 = 1700000000000"
    "orderingTime sample_runtime message_e3 = 1600000000000"
    by (simp_all add: orderingTime_def sample_dates1)
  from getTicketEmails_partial_sorted [OF sample_ticket1 b c] d
  obtain emails where
    "getTicketEmails sample_runtime sample_client ''1'' state0 = (Inr emails, snd ?out)"
    "emails = sort_key (orderingTime sample_runtime) (succeeded [Some message_e1, None, Some message_e3])"
    by blast
  then show ?thesis by (simp add: o)
qed

text \<open>
  Claim C3 as stated fails where a retained timestamp does not resolve: the message
  \<open>e6\<close> carries the string \<open>not a date\<close>, the comparator returns \<open>NaN\<close> for it, which
  the sort reads as equal, and \<open>e6\<close> stays behind \<open>e5\<close>, although epoch zero is before the
  5000 milliseconds of \<open>e5\<close>.
\<close>

theorem getTicketEmails_unparsed_counterexample:
  "fst (getTicketEmails sample_runtime sample_client ''3'' state0) =
     Inr [message_e5, message_e6] \<and>
   emailDate sample_runtime message_e6 = None \<and>
   orderingTime sample_runtime message_e5 = 5000 \<and>
   orderingTime sample_runtime message_e6 = 0"
  by code_simp

subsection \<open>The timestamp and the body of a message\<close>



lemma getEmailContent_fetched:
  assumes "emails_getById client (emailArgs emailId) (world s) = (Inr email, w')"
  shows "fst (getEmailContent rt client emailId s) =
           (case normalizeEmail rt w' email of Inl e \<Rightarrow> None | Inr result \<Rightarrow> Some result)"
  using assms by (simp add: getEmailContent_def await_call_def split: sum.splits)




text \<open>
  Claim C7, amended.  For every returned message: when the markup field is absent (or
  empty) and the plain-text field is present, the body is the plain text exactly as it
  is, white space at both ends included; when both are absent the body is empty; when
  the markup field is present (and not empty) the body is the converted and cleaned
  markup, whatever the plain-text field holds.
\<close>

theorem getEmailContent_body:
  assumes "emails_getById client (emailArgs emailId) (world s) = (Inr email, w')"
    and "fst (getEmailContent rt client emailId s) = Some result"
    and "html = truthy (obj_properties email ''hs_email_html'')"
    and "plain = truthy (obj_properties email ''hs_email_text'')"
  shows "(html = None \<and> plain = Some body \<longrightarrow> te_text result = Some body) \<and>
         (html = None \<and> plain = None \<longrightarrow> te_text result = Some []) \<and>
         (html = Some markup \<longrightarrow>
            (\<exists>converted. htmlToText rt markup = Inr converted \<and>
               te_text result = Some (cleanUp converted)))"
proof -
  from assms(2) obtain cleanText where
    t: "emailText rt (obj_properties email) = Inr cleanText" and r: "te_text result = Some cleanText"
    by (auto simp: getEmailContent_fetched [OF assms(1)] normalizeEmail_def Let_def
        split: sum.splits)
  show ?thesis
    using t r assms(3,4)
    by (auto simp: emailText_def Let_def split: option.splits sum.splits)
qed

lemma sample_fetch:
  "emails_getById sample_client (emailArgs ''e1'') (world state0) = (Inr email_e1, 1)"
  "emails_getById sample_client (emailArgs ''e3'') (world state0) = (Inr email_e3, 1)"
  "emails_getById sample_client (emailArgs ''e4'') (world state0) = (Inr email_e4, 1)"
  "emails_getById sample_client (emailArgs ''e8'') (world state0) = (Inr email_e8, 1)"
  by (simp_all add: sample_client_def sample_emails_def emailArgs_def state0_def)


lemma sample_truthy:
  "truthy (obj_properties email_e1 ''hs_email_date'') = Some ''1700000000000''"
  "truthy (obj_properties email_e4 ''hs_email_date'') = Some ''soon''"
  "truthy (obj_properties email_e4 ''hs_timestamp'') = Some ''1600000000000''"
  "truthy (obj_properties email_e8 ''hs_email_date'') = None"
  "truthy (obj_properties email_e8 ''hs_timestamp'') = None"
  "truthy (obj_properties email_e8 ''hs_createdate'') = None"
  "truthy (obj_properties email_e1 ''hs_email_html'') = None"
  "truthy (obj_properties email_e1 ''hs_email_text'') = Some ''  later  ''"
  "truthy (obj_properties email_e3 ''hs_email_html'') = Some ''<p>first</p>''"
  "truthy (obj_properties email_e3 ''hs_email_text'') = Some ''fallback''"
  by code_simp+


lemma sample_messages:
  "fst (getEmailContent sample_runtime sample_client ''e1'' state0) = Some message_e1"
  "fst (getEmailContent sample_runtime sample_client ''e3'' state0) = Some message_e3"
  by code_simp+



text \<open>
  \<open>e1\<close> has only a plain text; \<open>e3\<close> has a markup body, which wins over its plain
  text \<open>fallback\<close>.
\<close>

theorem getEmailContent_body_witness:
  "map_option te_text (fst (getEmailContent sample_runtime sample_client ''e1'' state0)) =
     Some (Some ''  later  '') \<and>
   map_option te_text (fst (getEmailContent sample_runtime sample_client ''e3'' state0)) =
     Some (Some ''first'')"
proof -
  have c: "htmlToText sample_runtime ''<p>first</p>'' = Inr (''first'' @ [newline] @ ''> '' @ [newline])"
    by (simp add: sample_runtime_def)
  have u: "cleanUp (''first'' @ [newline] @ ''> '' @ [newline]) = ''first''"
    by code_simp
  have 1: "te_text message_e1 = Some ''  later  ''"
    using getEmailContent_body [OF sample_fetch(1) sample_messages(1) refl refl,
        where body = "''  later  ''"]
    by (simp add: sample_truthy)
  have 3: "te_text message_e3 = Some ''first''"
    using getEmailContent_body [OF sample_fetch(2) sample_messages(2) refl refl,
        where markup = "''<p>first</p>''"]
    by (simp add: sample_truthy c u [simplified])
  from 1 3 show ?thesis by (simp add: sample_messages)
qed

text \<open>
  Claim C7 as stated fails on \<open>e1\<close>: the plain text \<open>''  later  ''\<close> is returned with its
  white space, not trimmed.
\<close>

theorem getEmailContent_untrimmed_counterexample:
  "emails_getById sample_client (emailArgs ''e1'') (world state0) = (Inr email_e1, 1) \<and>
   truthy (obj_properties email_e1 ''hs_email_html'') = None \<and>
   truthy (obj_properties email_e1 ''hs_email_text'') = Some ''  later  '' \<and>
   map_option te_text (fst (getEmailContent sample_runtime sample_client ''e1'' state0)) =
     Some (Some ''  later  '') \<and>
   trim ''  later  '' = ''later''"
proof -
  have "trim ''  later  '' = ''later''"
    "map_option te_text (fst (getEmailContent sample_runtime sample_client ''e1'' state0)) =
     Some (Some ''  later  '')"
    by code_simp+
  then show ?thesis
    by (simp add: sample_fetch sample_truthy)
qed

end
